theory Spec2Isabelle
  imports Complex_Main
begin

section \<open>Training loops of the notebooks\<close>

text \<open>
  The notebooks \<^verbatim>\<open>03_autoencoders.ipynb\<close> and \<^verbatim>\<open>04_attention.ipynb\<close> define
  \<^verbatim>\<open>train_autoencoder\<close> and \<^verbatim>\<open>train_regression\<close>. Both drive objects of the tensor
  framework: a module (the model), an optimizer, a loss criterion and two data loaders.
  The framework objects are modelled by what the loops use of them.

  Parameter tensors live in a store indexed by addresses; a module and an optimizer each
  hold a list of addresses (\<^verbatim>\<open>model.parameters()\<close>, the optimizer's parameter group), so
  that two objects may or may not share parameters. Tensor entries and losses are real
  numbers (exact arithmetic; rounding of the 32-bit floats is not modelled).
\<close>

datatype error = RuntimeError | IndexError | ZeroDivisionError

type_synonym addr = nat

record 's world =
  pdata :: "addr \<Rightarrow> real"
  pgrad :: "addr \<Rightarrow> real option"
  training :: "nat \<Rightarrow> bool"
  ostate :: 's

text \<open>
  A module as the loops see it: its identity, its parameters, its forward pass (which reads
  the store and may raise) and the gradient that \<^verbatim>\<open>loss.backward()\<close> accumulates into
  the \<^verbatim>\<open>.grad\<close> of each of its parameters for an input and a target.
\<close>

record ('s, 't) module =
  ident :: nat
  parameters :: "addr list"
  forward :: "'s world \<Rightarrow> 't \<Rightarrow> error + 't"
  gradient :: "'s world \<Rightarrow> 't \<Rightarrow> 't \<Rightarrow> addr \<Rightarrow> real"

text \<open>
  An optimizer: the parameters it was constructed from, its update rule for one parameter
  (from the optimizer state, the address, the current value and the gradient) and the
  evolution of its own state (step counter, moment estimates).
\<close>

record 's optimizer =
  param_group :: "addr list"
  rule :: "'s \<Rightarrow> addr \<Rightarrow> real \<Rightarrow> real \<Rightarrow> real"
  advance :: "'s \<Rightarrow> (addr \<Rightarrow> real option) \<Rightarrow> 's"

text \<open>\<^verbatim>\<open>torch.optim.AdamW(params, lr=...)\<close>: the optimizer holds exactly \<^verbatim>\<open>params\<close>.\<close>

definition AdamW ::
  "addr list \<Rightarrow> ('s \<Rightarrow> addr \<Rightarrow> real \<Rightarrow> real \<Rightarrow> real) \<Rightarrow> ('s \<Rightarrow> (addr \<Rightarrow> real option) \<Rightarrow> 's)
    \<Rightarrow> 's optimizer" where
  "AdamW params r adv = \<lparr>param_group = params, rule = r, advance = adv\<rparr>"

text \<open>
  \<^verbatim>\<open>opt.step()\<close> updates every parameter of the group that has a gradient and no other
  tensor; \<^verbatim>\<open>opt.zero_grad()\<close> resets the gradients of the group.
\<close>

definition opt_step :: "'s optimizer \<Rightarrow> 's world \<Rightarrow> 's world" where
  "opt_step opt w =
     w\<lparr>pdata := (\<lambda>a. if a \<in> set (param_group opt)
                     then (case pgrad w a of None \<Rightarrow> pdata w a
                           | Some g \<Rightarrow> rule opt (ostate w) a (pdata w a) g)
                     else pdata w a),
       ostate := advance opt (ostate w) (pgrad w)\<rparr>"

definition zero_grad :: "'s optimizer \<Rightarrow> 's world \<Rightarrow> 's world" where
  "zero_grad opt w =
     w\<lparr>pgrad := (\<lambda>a. if a \<in> set (param_group opt) then None else pgrad w a)\<rparr>"

text \<open>
  \<^verbatim>\<open>loss.backward()\<close> adds the gradient of the loss to the \<^verbatim>\<open>.grad\<close> of every parameter
  of the model that produced the prediction.
\<close>

definition backward :: "('s, 't) module \<Rightarrow> 't \<Rightarrow> 't \<Rightarrow> 's world \<Rightarrow> 's world" where
  "backward model X tgt w =
     w\<lparr>pgrad := (\<lambda>a. if a \<in> set (parameters model)
                     then Some ((case pgrad w a of None \<Rightarrow> 0 | Some g \<Rightarrow> g)
                                + gradient model w X tgt a)
                     else pgrad w a)\<rparr>"

definition set_mode :: "('s, 't) module \<Rightarrow> bool \<Rightarrow> 's world \<Rightarrow> 's world" where
  "set_mode model b w = w\<lparr>training := (training w)(ident model := b)\<rparr>"

text \<open>
  A data loader: \<^verbatim>\<open>len(loader)\<close> and the sequence of \<^verbatim>\<open>(X, y)\<close> pairs that the
  \<open>n\<close>-th iteration over it yields (a shuffling loader yields a new order each time).
\<close>

record 't dataloader =
  len :: nat
  batches :: "nat \<Rightarrow> ('t \<times> 't) list"


text \<open>
  The state of a running loop: the store, the two loss buffers allocated once before the
  first epoch, and the two result lists of the \<^verbatim>\<open>results\<close> dictionary.
\<close>

record 's lstate =
  world :: "'s world"
  train_loss :: "real list"
  test_loss :: "real list"
  train_losses :: "real list"
  test_losses :: "real list"

text \<open>\<^verbatim>\<open>tensor.mean()\<close> of a one-dimensional tensor.\<close>

definition mean :: "real list \<Rightarrow> real" where
  "mean xs = sum_list xs / real (length xs)"

text \<open>
  One pass of the body of the training \<^verbatim>\<open>for\<close> loop. The two notebooks differ in the
  target handed to the criterion: \<^verbatim>\<open>crit(X_prime, X)\<close> in \<^verbatim>\<open>train_autoencoder\<close>,
  \<^verbatim>\<open>crit(y_hat, y)\<close> in \<^verbatim>\<open>train_regression\<close>; \<open>tgt\<close> selects it from the pair.
  An exception leaves the loop with the state reached so far.
\<close>

definition train_batch ::
  "('s, 't) module \<Rightarrow> 's optimizer \<Rightarrow> ('t \<Rightarrow> 't \<Rightarrow> error + real) \<Rightarrow> ('t \<times> 't \<Rightarrow> 't)
    \<Rightarrow> nat \<Rightarrow> 't \<times> 't \<Rightarrow> 's lstate \<Rightarrow> error \<times> 's lstate + 's lstate" where
  "train_batch model opt crit tgt idx b s =
     (case forward model (world s) (fst b) of
        Inl e \<Rightarrow> Inl (e, s)
      | Inr y_hat \<Rightarrow>
          (case crit y_hat (tgt b) of
             Inl e \<Rightarrow> Inl (e, s)
           | Inr loss \<Rightarrow>
               let s1 = s\<lparr>world := zero_grad opt (opt_step opt
                                      (backward model (fst b) (tgt b) (world s)))\<rparr>
               in if idx < length (train_loss s1)
                  then Inr (s1\<lparr>train_loss := (train_loss s1)[idx := loss]\<rparr>)
                  else Inl (IndexError, s1)))"

fun train_batches ::
  "('s, 't) module \<Rightarrow> 's optimizer \<Rightarrow> ('t \<Rightarrow> 't \<Rightarrow> error + real) \<Rightarrow> ('t \<times> 't \<Rightarrow> 't)
    \<Rightarrow> nat \<Rightarrow> ('t \<times> 't) list \<Rightarrow> 's lstate \<Rightarrow> error \<times> 's lstate + 's lstate" where
  "train_batches model opt crit tgt idx [] s = Inr s"
| "train_batches model opt crit tgt idx (b # bs) s =
     (case train_batch model opt crit tgt idx b s of
        Inl r \<Rightarrow> Inl r
      | Inr s' \<Rightarrow> train_batches model opt crit tgt (Suc idx) bs s')"

text \<open>
  The body of the test loop, the same text in both notebooks:
  \<^verbatim>\<open>X_prime_test = model(X_test); loss_ = crit(X_prime_test, X_test);
  test_loss[idx] = loss_.item()\<close>.
\<close>

definition test_batch ::
  "('s, 't) module \<Rightarrow> ('t \<Rightarrow> 't \<Rightarrow> error + real)
    \<Rightarrow> nat \<Rightarrow> 't \<times> 't \<Rightarrow> 's lstate \<Rightarrow> error \<times> 's lstate + 's lstate" where
  "test_batch model crit idx b s =
     (case b of (X_test, y_test) \<Rightarrow>
        (case forward model (world s) X_test of
           Inl e \<Rightarrow> Inl (e, s)
         | Inr X_prime_test \<Rightarrow>
             (case crit X_prime_test X_test of
                Inl e \<Rightarrow> Inl (e, s)
              | Inr loss \<Rightarrow>
                  if idx < length (test_loss s)
                  then Inr (s\<lparr>test_loss := (test_loss s)[idx := loss]\<rparr>)
                  else Inl (IndexError, s))))"

fun test_batches ::
  "('s, 't) module \<Rightarrow> ('t \<Rightarrow> 't \<Rightarrow> error + real)
    \<Rightarrow> nat \<Rightarrow> ('t \<times> 't) list \<Rightarrow> 's lstate \<Rightarrow> error \<times> 's lstate + 's lstate" where
  "test_batches model crit idx [] s = Inr s"
| "test_batches model crit idx (b # bs) s =
     (case test_batch model crit idx b s of
        Inl r \<Rightarrow> Inl r
      | Inr s' \<Rightarrow> test_batches model crit (Suc idx) bs s')"

text \<open>
  The end of an epoch: both means are appended, then the progress line is printed when
  \<^verbatim>\<open>epoch % log_every == 0 or (epoch + 1) == max_epochs\<close>; the modulus raises for
  \<^verbatim>\<open>log_every == 0\<close>. Printing has no other effect.
\<close>

definition record_epoch :: "nat \<Rightarrow> nat \<Rightarrow> int \<Rightarrow> 's lstate \<Rightarrow> error \<times> 's lstate + 's lstate" where
  "record_epoch epoch max_epochs log_every s =
     (let s1 = s\<lparr>train_losses := train_losses s @ [mean (train_loss s)]\<rparr>;
          s2 = s1\<lparr>test_losses := test_losses s1 @ [mean (test_loss s1)]\<rparr>
      in if log_every = 0 then Inl (ZeroDivisionError, s2) else Inr s2)"

text \<open>One epoch of \<^verbatim>\<open>train_autoencoder\<close>.\<close>

definition autoencoder_epoch ::
  "('s, 't) module \<Rightarrow> 's optimizer \<Rightarrow> ('t \<Rightarrow> 't \<Rightarrow> error + real)
    \<Rightarrow> 't dataloader \<Rightarrow> 't dataloader \<Rightarrow> nat \<Rightarrow> int \<Rightarrow> nat \<Rightarrow> 's lstate
    \<Rightarrow> error \<times> 's lstate + 's lstate" where
  "autoencoder_epoch model opt crit train_dataloader test_dataloader max_epochs log_every epoch s =
     (case train_batches model opt crit fst 0 (batches train_dataloader epoch) s of
        Inl r \<Rightarrow> Inl r
      | Inr s1 \<Rightarrow>
          (case test_batches model crit 0 (batches test_dataloader epoch) s1 of
             Inl r \<Rightarrow> Inl r
           | Inr s2 \<Rightarrow> record_epoch epoch max_epochs log_every s2))"

text \<open>
  One epoch of \<^verbatim>\<open>train_regression\<close>: as above with \<^verbatim>\<open>model.train()\<close> before the
  training loop, \<^verbatim>\<open>model.eval()\<close> after it and the target \<^verbatim>\<open>y\<close> in the training loss.
\<close>

definition regression_epoch ::
  "('s, 't) module \<Rightarrow> 's optimizer \<Rightarrow> ('t \<Rightarrow> 't \<Rightarrow> error + real)
    \<Rightarrow> 't dataloader \<Rightarrow> 't dataloader \<Rightarrow> nat \<Rightarrow> int \<Rightarrow> nat \<Rightarrow> 's lstate
    \<Rightarrow> error \<times> 's lstate + 's lstate" where
  "regression_epoch model opt crit train_dataloader test_dataloader max_epochs log_every epoch s =
     (case train_batches model opt crit snd 0 (batches train_dataloader epoch)
             (s\<lparr>world := set_mode model True (world s)\<rparr>) of
        Inl r \<Rightarrow> Inl r
      | Inr s1 \<Rightarrow>
          (case test_batches model crit 0 (batches test_dataloader epoch)
                  (s1\<lparr>world := set_mode model False (world s1)\<rparr>) of
             Inl r \<Rightarrow> Inl r
           | Inr s2 \<Rightarrow> record_epoch epoch max_epochs log_every s2))"

text \<open>\<^verbatim>\<open>for epoch in range(max_epochs)\<close>, over the list of the epochs still to run.\<close>

fun epochs ::
  "(nat \<Rightarrow> 's lstate \<Rightarrow> error \<times> 's lstate + 's lstate) \<Rightarrow> nat list \<Rightarrow> 's lstate
    \<Rightarrow> error \<times> 's lstate + 's lstate" where
  "epochs body [] s = Inr s"
| "epochs body (epoch # es) s =
     (case body epoch s of Inl r \<Rightarrow> Inl r | Inr s' \<Rightarrow> epochs body es s')"

definition init_lstate :: "'t dataloader \<Rightarrow> 't dataloader \<Rightarrow> 's world \<Rightarrow> 's lstate" where
  "init_lstate train_dataloader test_dataloader w =
     \<lparr>world = w,
      train_loss = replicate (len train_dataloader) 0,
      test_loss = replicate (len test_dataloader) 0,
      train_losses = [], test_losses = []\<rparr>"

definition train_autoencoder ::
  "('s, 't) module \<Rightarrow> 's optimizer \<Rightarrow> ('t \<Rightarrow> 't \<Rightarrow> error + real)
    \<Rightarrow> 't dataloader \<Rightarrow> 't dataloader \<Rightarrow> nat \<Rightarrow> int \<Rightarrow> 's world
    \<Rightarrow> error \<times> 's lstate + 's lstate" where
  "train_autoencoder model opt crit train_dataloader test_dataloader max_epochs log_every w =
     epochs (autoencoder_epoch model opt crit train_dataloader test_dataloader max_epochs log_every)
       [0..<max_epochs] (init_lstate train_dataloader test_dataloader w)"

definition train_regression ::
  "('s, 't) module \<Rightarrow> 's optimizer \<Rightarrow> ('t \<Rightarrow> 't \<Rightarrow> error + real)
    \<Rightarrow> 't dataloader \<Rightarrow> 't dataloader \<Rightarrow> nat \<Rightarrow> int \<Rightarrow> 's world
    \<Rightarrow> error \<times> 's lstate + 's lstate" where
  "train_regression model opt crit train_dataloader test_dataloader max_epochs log_every w =
     epochs (regression_epoch model opt crit train_dataloader test_dataloader max_epochs log_every)
       [0..<max_epochs] (init_lstate train_dataloader test_dataloader w)"

subsection \<open>The loss values of an epoch, without the buffers\<close>









text \<open>A loader that yields the same inputs with other targets.\<close>

definition relabel :: "(nat \<Rightarrow> 't \<Rightarrow> 't \<Rightarrow> 't) \<Rightarrow> 't dataloader \<Rightarrow> 't dataloader" where
  "relabel g dl = dl\<lparr>batches := (\<lambda>e. map (\<lambda>(X, y). (X, g e X y)) (batches dl e))\<rparr>"

text \<open>The state in which a run ends, whether it returns or raises.\<close>

definition final_state :: "error \<times> 's lstate + 's lstate \<Rightarrow> 's lstate" where
  "final_state r = (case r of Inl (e, s) \<Rightarrow> s | Inr s \<Rightarrow> s)"

subsection \<open>A small instance\<close>

text \<open>
  A model with one scalar parameter \<open>p\<close> at address \<open>a\<close> computing \<open>p * x\<close>, the squared
  error as criterion, plain gradient descent as update rule and a loader with one batch.
\<close>

definition demo_world :: "unit world" where
  "demo_world = \<lparr>pdata = (\<lambda>a. 1), pgrad = (\<lambda>a. None), training = (\<lambda>i. False), ostate = ()\<rparr>"

definition demo_module :: "addr \<Rightarrow> (unit, real) module" where
  "demo_module a =
     \<lparr>ident = a, parameters = [a],
      forward = (\<lambda>w x. Inr (pdata w a * x)),
      gradient = (\<lambda>w x t b. 2 * (pdata w a * x - t) * x)\<rparr>"

definition demo_crit :: "real \<Rightarrow> real \<Rightarrow> error + real" where
  "demo_crit p t = Inr ((p - t) * (p - t))"

definition demo_loader :: "real dataloader" where
  "demo_loader = \<lparr>len = 1, batches = (\<lambda>e. [(1, 2)])\<rparr>"

definition demo_opt :: "addr \<Rightarrow> unit optimizer" where
  "demo_opt a = AdamW [a] (\<lambda>st b v g. v - g / 4) (\<lambda>st g. st)"

section \<open>Tensors and the layers of the framework\<close>

text \<open>
  A tensor is its shape and its entries in row-major order, as the framework stores a
  contiguous tensor. The models of the notebooks work on tensors of rank three,
  \<open>(batch, channels, length)\<close>; \<open>at3\<close> reads an entry and \<open>tabulate3\<close> builds such a
  tensor from a function of the three indices.
\<close>

record tensor =
  shape :: "nat list"
  data :: "real list"

definition tabulate3 :: "nat \<Rightarrow> nat \<Rightarrow> nat \<Rightarrow> (nat \<Rightarrow> nat \<Rightarrow> nat \<Rightarrow> real) \<Rightarrow> tensor" where
  "tabulate3 B C L f =
     \<lparr>shape = [B, C, L],
      data = map (\<lambda>idx. f (idx div (C * L)) (idx div L mod C) (idx mod L)) [0..<B * C * L]\<rparr>"

definition at3 :: "tensor \<Rightarrow> nat \<Rightarrow> nat \<Rightarrow> nat \<Rightarrow> real" where
  "at3 x b c l =
     (case shape x of [B, C, L] \<Rightarrow> data x ! ((b * C + c) * L + l) | _ \<Rightarrow> 0)"

text \<open>
  An operation of the framework raises on operands it does not accept; \<open>then_do\<close>
  sequences two steps, the second running only if the first returned.
\<close>

definition then_do :: "error + 'a \<Rightarrow> ('a \<Rightarrow> error + 'b) \<Rightarrow> error + 'b" where
  "then_do r f = (case r of Inl e \<Rightarrow> Inl e | Inr v \<Rightarrow> f v)"

subsection \<open>Convolution\<close>

text \<open>
  The framework runs an operation of a batched layer on an input without batch dimension
  by inserting a batch dimension of size one, running the batched operation and removing
  the dimension from the result.
\<close>

definition unbatched :: "(tensor \<Rightarrow> error + tensor) \<Rightarrow> tensor \<Rightarrow> error + tensor" where
  "unbatched f x =
     then_do (f (x\<lparr>shape := 1 # shape x\<rparr>)) (\<lambda>y. Inr (y\<lparr>shape := tl (shape y)\<rparr>))"

text \<open>
  \<^verbatim>\<open>torch.nn.Conv1d(in_channels, out_channels, kernel_size, stride, padding, bias)\<close>
  with dilation and groups one. The weight has index \<open>(out, in, k)\<close>; the module is
  created with weights drawn by the framework, here given to the constructor. On a batched
  input \<open>(N, C, L)\<close> the layer computes the cross-correlation over the zero-padded input,
  \<open>out[n, co, t] = bias[co] + \<Sum>c k. weight[co, c, k] * padded[n, c, t * stride + k]\<close>,
  of length \<open>(L + 2 * padding - kernel_size) div stride + 1\<close>. It raises a
  \<^verbatim>\<open>RuntimeError\<close> when the weight has no output channel, when the channels of the
  input are not \<open>in_channels\<close>, when the kernel is longer than the padded input, and when
  the input is empty in another dimension than batch or channels. An input without
  channels gives a result without channels. An input \<open>(C, L)\<close> is taken as unbatched; any
  other rank raises.
\<close>

record conv1d =
  in_channels :: nat
  out_channels :: nat
  kernel_size :: nat
  stride :: nat
  padding :: nat
  weight :: "nat \<Rightarrow> nat \<Rightarrow> nat \<Rightarrow> real"
  bias :: "(nat \<Rightarrow> real) option"

definition Conv1d ::
  "nat \<Rightarrow> nat \<Rightarrow> nat \<Rightarrow> nat \<Rightarrow> nat \<Rightarrow> (nat \<Rightarrow> nat \<Rightarrow> nat \<Rightarrow> real) \<Rightarrow> (nat \<Rightarrow> real) option \<Rightarrow> conv1d" where
  "Conv1d cin cout k s p w b =
     \<lparr>in_channels = cin, out_channels = cout, kernel_size = k, stride = s, padding = p,
      weight = w, bias = b\<rparr>"

definition padded :: "tensor \<Rightarrow> nat \<Rightarrow> nat \<Rightarrow> nat \<Rightarrow> nat \<Rightarrow> nat \<Rightarrow> real" where
  "padded x p L n c j = (if p \<le> j \<and> j < p + L then at3 x n c (j - p) else 0)"

definition conv1d_batched :: "conv1d \<Rightarrow> tensor \<Rightarrow> error + tensor" where
  "conv1d_batched cv x =
     (case shape x of
        [N, C, L] \<Rightarrow>
          if stride cv = 0 \<or> kernel_size cv = 0 \<or> out_channels cv = 0
             \<or> C \<noteq> in_channels cv
             \<or> L + 2 * padding cv < kernel_size cv
             \<or> (L = 0 \<and> N \<noteq> 0 \<and> C \<noteq> 0)
          then Inl RuntimeError
          else Inr (tabulate3 N (if C = 0 then 0 else out_channels cv)
                      ((L + 2 * padding cv - kernel_size cv) div stride cv + 1)
                      (\<lambda>n co t.
                         (case bias cv of None \<Rightarrow> 0 | Some b \<Rightarrow> b co)
                         + (\<Sum>c \<leftarrow> [0..<C]. \<Sum>k \<leftarrow> [0..<kernel_size cv].
                              weight cv co c k * padded x (padding cv) L n c (t * stride cv + k))))
      | _ \<Rightarrow> Inl RuntimeError)"

definition conv1d_forward :: "conv1d \<Rightarrow> tensor \<Rightarrow> error + tensor" where
  "conv1d_forward cv x =
     (if length (shape x) = 2 then unbatched (conv1d_batched cv) x else conv1d_batched cv x)"

text \<open>
  \<^verbatim>\<open>torch.nn.ConvTranspose1d\<close> with weight index \<open>(in, out, k)\<close>: input position \<open>s\<close>
  contributes to output position \<open>s * stride - padding + k\<close>; the output has length
  \<open>(L - 1) * stride - 2 * padding + (kernel_size - 1) + output_padding + 1\<close>. The first
  dimension of its weight is \<open>in_channels\<close>, so it raises when that is zero.
\<close>

record conv_transpose1d =
  t_in_channels :: nat
  t_out_channels :: nat
  t_kernel_size :: nat
  t_stride :: nat
  t_padding :: nat
  t_output_padding :: nat
  t_weight :: "nat \<Rightarrow> nat \<Rightarrow> nat \<Rightarrow> real"
  t_bias :: "(nat \<Rightarrow> real) option"

definition ConvTranspose1d ::
  "nat \<Rightarrow> nat \<Rightarrow> nat \<Rightarrow> nat \<Rightarrow> nat \<Rightarrow> nat \<Rightarrow> (nat \<Rightarrow> nat \<Rightarrow> nat \<Rightarrow> real) \<Rightarrow> (nat \<Rightarrow> real) option
    \<Rightarrow> conv_transpose1d" where
  "ConvTranspose1d cin cout k s p op w b =
     \<lparr>t_in_channels = cin, t_out_channels = cout, t_kernel_size = k, t_stride = s,
      t_padding = p, t_output_padding = op, t_weight = w, t_bias = b\<rparr>"

definition conv_transpose1d_batched :: "conv_transpose1d \<Rightarrow> tensor \<Rightarrow> error + tensor" where
  "conv_transpose1d_batched ct x =
     (case shape x of
        [N, C, L] \<Rightarrow>
          if t_stride ct = 0 \<or> t_kernel_size ct = 0 \<or> t_in_channels ct = 0
             \<or> C \<noteq> t_in_channels ct
             \<or> t_stride ct \<le> t_output_padding ct \<or> L = 0
             \<or> (L - 1) * t_stride ct + (t_kernel_size ct - 1) + t_output_padding ct + 1
                  \<le> 2 * t_padding ct
          then Inl RuntimeError
          else Inr (tabulate3 N (t_out_channels ct)
                      ((L - 1) * t_stride ct + (t_kernel_size ct - 1) + t_output_padding ct + 1
                         - 2 * t_padding ct)
                      (\<lambda>n co t.
                         (case t_bias ct of None \<Rightarrow> 0 | Some b \<Rightarrow> b co)
                         + (\<Sum>c \<leftarrow> [0..<C]. \<Sum>k \<leftarrow> [0..<t_kernel_size ct].
                              if k \<le> t + t_padding ct
                                 \<and> (t + t_padding ct - k) mod t_stride ct = 0
                                 \<and> (t + t_padding ct - k) div t_stride ct < L
                              then at3 x n c ((t + t_padding ct - k) div t_stride ct)
                                     * t_weight ct c co k
                              else 0)))
      | _ \<Rightarrow> Inl RuntimeError)"

definition conv_transpose1d_forward :: "conv_transpose1d \<Rightarrow> tensor \<Rightarrow> error + tensor" where
  "conv_transpose1d_forward ct x =
     (if length (shape x) = 2
      then unbatched (conv_transpose1d_batched ct) x
      else conv_transpose1d_batched ct x)"

subsection \<open>Pointwise layers and views\<close>

text \<open>
  \<^verbatim>\<open>torch.nn.ReLU\<close>; \<^verbatim>\<open>torch.nn.Flatten()\<close>, which merges all dimensions after the
  first; \<^verbatim>\<open>torch.unsqueeze(x, dim)\<close>, which inserts a dimension of size one, and
  \<^verbatim>\<open>x.squeeze(dim)\<close>, which removes it if its size is one. The last three keep the
  entries and change the shape.
\<close>

definition relu :: "tensor \<Rightarrow> tensor" where
  "relu x = x\<lparr>data := map (max 0) (data x)\<rparr>"

definition flatten :: "tensor \<Rightarrow> error + tensor" where
  "flatten x =
     (case shape x of
        d0 # d1 # ds \<Rightarrow> Inr (x\<lparr>shape := [d0, prod_list (d1 # ds)]\<rparr>)
      | _ \<Rightarrow> Inl IndexError)"

definition unsqueeze :: "tensor \<Rightarrow> nat \<Rightarrow> error + tensor" where
  "unsqueeze x d =
     (if d \<le> length (shape x)
      then Inr (x\<lparr>shape := take d (shape x) @ [1] @ drop d (shape x)\<rparr>)
      else Inl IndexError)"

definition squeeze :: "tensor \<Rightarrow> nat \<Rightarrow> error + tensor" where
  "squeeze x d =
     (if d < length (shape x)
      then Inr (if shape x ! d = 1
                then x\<lparr>shape := take d (shape x) @ drop (Suc d) (shape x)\<rparr>
                else x)
      else Inl IndexError)"

subsection \<open>Matrix operations\<close>

text \<open>
  \<^verbatim>\<open>torch.transpose(K, -1, -2)\<close>, \<^verbatim>\<open>torch.matmul\<close> and
  \<^verbatim>\<open>torch.nn.functional.softmax(A_, dim=-2)\<close> on the operands the attention layer can
  pass to them: tensors of rank three, and of rank two when its input is unbatched. The
  softmax along dimension \<open>-2\<close> divides \<open>exp\<close> of an entry by the sum over the index
  before the last. The entries are real numbers and \<open>exp\<close> is the real exponential: the
  rounding of the 32-bit floats of the framework is not modelled, nor that their
  exponential of a very negative number is zero.
\<close>

definition transpose_batched :: "tensor \<Rightarrow> error + tensor" where
  "transpose_batched x =
     (case shape x of
        [B, R, C] \<Rightarrow> Inr (tabulate3 B C R (\<lambda>b i j. at3 x b j i))
      | _ \<Rightarrow> Inl RuntimeError)"

definition transpose_last :: "tensor \<Rightarrow> error + tensor" where
  "transpose_last x =
     (if length (shape x) = 2 then unbatched transpose_batched x else transpose_batched x)"

definition matmul_batched :: "tensor \<Rightarrow> tensor \<Rightarrow> error + tensor" where
  "matmul_batched x y =
     (case (shape x, shape y) of
        ([B, n, m], [B', m', p]) \<Rightarrow>
          if B = B' \<and> m = m'
          then Inr (tabulate3 B n p (\<lambda>b i l. \<Sum>j \<leftarrow> [0..<m]. at3 x b i j * at3 y b j l))
          else Inl RuntimeError
      | _ \<Rightarrow> Inl RuntimeError)"

definition matmul :: "tensor \<Rightarrow> tensor \<Rightarrow> error + tensor" where
  "matmul x y =
     (if length (shape x) = 2 \<and> length (shape y) = 2
      then unbatched (matmul_batched (x\<lparr>shape := 1 # shape x\<rparr>)) y
      else matmul_batched x y)"

definition softmax_m2_batched :: "tensor \<Rightarrow> error + tensor" where
  "softmax_m2_batched x =
     (case shape x of
        [B, R, C] \<Rightarrow>
          Inr (tabulate3 B R C
                 (\<lambda>b i j. exp (at3 x b i j) / (\<Sum>i' \<leftarrow> [0..<R]. exp (at3 x b i' j))))
      | _ \<Rightarrow> Inl RuntimeError)"

definition softmax_dim_m2 :: "tensor \<Rightarrow> error + tensor" where
  "softmax_dim_m2 x =
     (if length (shape x) = 2 then unbatched softmax_m2_batched x else softmax_m2_batched x)"

section \<open>The self-attention layer of \<^verbatim>\<open>04_attention.ipynb\<close>\<close>

text \<open>
  \<^verbatim>\<open>SelfAttention.__init__\<close> creates three convolutions of kernel size one without
  bias; \<^verbatim>\<open>SelfAttention.forward\<close> is transcribed statement by statement (the local
  variable \<^verbatim>\<open>A_\<close> of the source is \<open>A'\<close> here).
\<close>

record self_attention =
  conv_Q :: conv1d
  conv_K :: conv1d
  conv_V :: conv1d

definition SelfAttention ::
  "nat \<Rightarrow> nat \<Rightarrow> nat \<Rightarrow> (nat \<Rightarrow> nat \<Rightarrow> nat \<Rightarrow> real) \<Rightarrow> (nat \<Rightarrow> nat \<Rightarrow> nat \<Rightarrow> real)
    \<Rightarrow> (nat \<Rightarrow> nat \<Rightarrow> nat \<Rightarrow> real) \<Rightarrow> self_attention" where
  "SelfAttention cin cout ckey wQ wK wV =
     \<lparr>conv_Q = Conv1d cin ckey 1 1 0 wQ None,
      conv_K = Conv1d cin ckey 1 1 0 wK None,
      conv_V = Conv1d cin cout 1 1 0 wV None\<rparr>"

definition SelfAttention_forward :: "self_attention \<Rightarrow> tensor \<Rightarrow> error + tensor" where
  "SelfAttention_forward sa x =
     then_do (conv1d_forward (conv_Q sa) x) (\<lambda>Q.
     then_do (conv1d_forward (conv_K sa) x) (\<lambda>K.
     then_do (conv1d_forward (conv_V sa) x) (\<lambda>V.
     then_do (transpose_last K) (\<lambda>K_t.
     then_do (matmul Q K_t) (\<lambda>A'.
     then_do (softmax_dim_m2 A') (\<lambda>A.
     then_do (matmul A V) (\<lambda>y.
     Inr y)))))))"

text \<open>
  The values of the local variables \<^verbatim>\<open>A\<close> and \<^verbatim>\<open>V\<close> of \<^verbatim>\<open>forward\<close>: the same
  statements up to the softmax.
\<close>

definition SelfAttention_weights :: "self_attention \<Rightarrow> tensor \<Rightarrow> error + tensor \<times> tensor" where
  "SelfAttention_weights sa x =
     then_do (conv1d_forward (conv_Q sa) x) (\<lambda>Q.
     then_do (conv1d_forward (conv_K sa) x) (\<lambda>K.
     then_do (conv1d_forward (conv_V sa) x) (\<lambda>V.
     then_do (transpose_last K) (\<lambda>K_t.
     then_do (matmul Q K_t) (\<lambda>A'.
     then_do (softmax_dim_m2 A') (\<lambda>A.
     Inr (A, V)))))))"

text \<open>
  In closed form: the projection of the input by a kernel-one convolution, the score of
  two channels (the product \<^verbatim>\<open>Q * K_t\<close> contracts the sequence positions) and the
  softmax of the scores along dimension \<open>-2\<close>.
\<close>

definition projection :: "(nat \<Rightarrow> nat \<Rightarrow> nat \<Rightarrow> real) \<Rightarrow> tensor \<Rightarrow> nat \<Rightarrow> nat \<Rightarrow> nat \<Rightarrow> real" where
  "projection w x b i l = (\<Sum>c \<leftarrow> [0..<shape x ! 1]. w i c 0 * at3 x b c l)"

definition scores ::
  "(nat \<Rightarrow> nat \<Rightarrow> nat \<Rightarrow> real) \<Rightarrow> (nat \<Rightarrow> nat \<Rightarrow> nat \<Rightarrow> real) \<Rightarrow> tensor \<Rightarrow> nat \<Rightarrow> nat \<Rightarrow> nat \<Rightarrow> real" where
  "scores wQ wK x b i j =
     (\<Sum>l \<leftarrow> [0..<shape x ! 2]. projection wQ x b i l * projection wK x b j l)"

definition attention_weight ::
  "(nat \<Rightarrow> nat \<Rightarrow> nat \<Rightarrow> real) \<Rightarrow> (nat \<Rightarrow> nat \<Rightarrow> nat \<Rightarrow> real) \<Rightarrow> tensor \<Rightarrow> nat
    \<Rightarrow> nat \<Rightarrow> nat \<Rightarrow> nat \<Rightarrow> real" where
  "attention_weight wQ wK x ckey b i j =
     exp (scores wQ wK x b i j) / (\<Sum>i' \<leftarrow> [0..<ckey]. exp (scores wQ wK x b i' j))"

text \<open>
  The attention formula in the words of the specification, for comparison: the same
  projections and product, the scores scaled by \<open>1 / sqrt key_channels\<close> before a softmax,
  which is a parameter since the specification names no axis (\<open>softmax_dim_m1\<close> is the
  softmax along the last dimension).
\<close>

definition scale_tensor :: "real \<Rightarrow> tensor \<Rightarrow> tensor" where
  "scale_tensor r x = x\<lparr>data := map (\<lambda>v. r * v) (data x)\<rparr>"

definition softmax_m1_batched :: "tensor \<Rightarrow> error + tensor" where
  "softmax_m1_batched x =
     (case shape x of
        [B, R, C] \<Rightarrow>
          Inr (tabulate3 B R C
                 (\<lambda>b i j. exp (at3 x b i j) / (\<Sum>j' \<leftarrow> [0..<C]. exp (at3 x b i j'))))
      | _ \<Rightarrow> Inl RuntimeError)"

definition softmax_dim_m1 :: "tensor \<Rightarrow> error + tensor" where
  "softmax_dim_m1 x =
     (if length (shape x) = 2 then unbatched softmax_m1_batched x else softmax_m1_batched x)"

definition scaled_dot_product_attention ::
  "(tensor \<Rightarrow> error + tensor) \<Rightarrow> self_attention \<Rightarrow> tensor \<Rightarrow> error + tensor" where
  "scaled_dot_product_attention softmax sa x =
     then_do (conv1d_forward (conv_Q sa) x) (\<lambda>Q.
     then_do (conv1d_forward (conv_K sa) x) (\<lambda>K.
     then_do (conv1d_forward (conv_V sa) x) (\<lambda>V.
     then_do (transpose_last K) (\<lambda>K_t.
     then_do (matmul Q K_t) (\<lambda>S.
     then_do (softmax (scale_tensor (1 / sqrt (real (out_channels (conv_K sa)))) S)) (\<lambda>A.
     matmul A V))))))"

section \<open>The networks\<close>

text \<open>
  A \<^verbatim>\<open>torch.nn.Sequential\<close> is the list of its layers, applied in order. All model
  classes of the notebooks keep one in \<^verbatim>\<open>self.layers\<close>.
\<close>

datatype layer =
    L_Conv1d conv1d
  | L_ReLU
  | L_Flatten
  | L_ConvTranspose1d conv_transpose1d
  | L_SelfAttention self_attention

fun apply_layer :: "layer \<Rightarrow> tensor \<Rightarrow> error + tensor" where
  "apply_layer (L_Conv1d cv) x = conv1d_forward cv x"
| "apply_layer L_ReLU x = Inr (relu x)"
| "apply_layer L_Flatten x = flatten x"
| "apply_layer (L_ConvTranspose1d ct) x = conv_transpose1d_forward ct x"
| "apply_layer (L_SelfAttention sa) x = SelfAttention_forward sa x"

fun Sequential_forward :: "layer list \<Rightarrow> tensor \<Rightarrow> error + tensor" where
  "Sequential_forward [] x = Inr x"
| "Sequential_forward (l # ls) x = then_do (apply_layer l x) (Sequential_forward ls)"

record layered =
  layers :: "layer list"

text \<open>
  The initial weight and bias of the \<open>i\<close>-th convolution of a model, which the framework
  draws at random when the layer is created.
\<close>

type_synonym init = "nat \<Rightarrow> (nat \<Rightarrow> nat \<Rightarrow> nat \<Rightarrow> real) \<times> (nat \<Rightarrow> real)"

text \<open>
  \<^verbatim>\<open>RegressionFCN.__init__(inshape, num_channels=64, ksize=5, num_layers=4)\<close>: the loop
  appends a convolution and a ReLU \<open>num_layers\<close> times, \<^verbatim>\<open>num_inchannels\<close> being
  \<^verbatim>\<open>inshape[0]\<close> in the first round and \<^verbatim>\<open>num_channels\<close> afterwards; a convolution
  of kernel size one back to \<^verbatim>\<open>inshape[0]\<close> channels follows.
\<close>

fun RegressionFCN_loop :: "init \<Rightarrow> nat \<Rightarrow> nat \<Rightarrow> nat \<Rightarrow> nat \<Rightarrow> nat \<Rightarrow> layer list" where
  "RegressionFCN_loop W num_channels ksize num_inchannels i 0 = []"
| "RegressionFCN_loop W num_channels ksize num_inchannels i (Suc n) =
     L_Conv1d (Conv1d num_inchannels num_channels ksize 1 (ksize div 2)
                 (fst (W i)) (Some (snd (W i))))
     # L_ReLU
     # RegressionFCN_loop W num_channels ksize num_channels (Suc i) n"

definition RegressionFCN :: "init \<Rightarrow> nat \<times> nat \<Rightarrow> nat \<Rightarrow> nat \<Rightarrow> nat \<Rightarrow> layered" where
  "RegressionFCN W inshape num_channels ksize num_layers =
     \<lparr>layers = RegressionFCN_loop W num_channels ksize (fst inshape) 0 num_layers
        @ [L_Conv1d (Conv1d num_channels (fst inshape) 1 1 0
                       (fst (W num_layers)) (Some (snd (W num_layers))))]\<rparr>"

definition RegressionFCN_forward :: "layered \<Rightarrow> tensor \<Rightarrow> error + tensor" where
  "RegressionFCN_forward m x = Sequential_forward (layers m) x"

text \<open>\<^verbatim>\<open>CustomAttn.__init__(inshape, num_channels=64, ksize=5)\<close> and its forward pass.\<close>

definition CustomAttn ::
  "init \<Rightarrow> (nat \<Rightarrow> nat \<Rightarrow> nat \<Rightarrow> real) \<Rightarrow> (nat \<Rightarrow> nat \<Rightarrow> nat \<Rightarrow> real) \<Rightarrow> (nat \<Rightarrow> nat \<Rightarrow> nat \<Rightarrow> real)
    \<Rightarrow> nat \<times> nat \<Rightarrow> nat \<Rightarrow> nat \<Rightarrow> layered" where
  "CustomAttn W wQ wK wV inshape num_channels ksize =
     \<lparr>layers =
        [L_Conv1d (Conv1d (fst inshape) num_channels ksize 1 (ksize div 2)
                     (fst (W 0)) (Some (snd (W 0)))),
         L_ReLU,
         L_SelfAttention (SelfAttention num_channels num_channels num_channels wQ wK wV),
         L_ReLU,
         L_Conv1d (Conv1d num_channels num_channels ksize 1 (ksize div 2)
                     (fst (W 1)) (Some (snd (W 1)))),
         L_Conv1d (Conv1d num_channels (fst inshape) 1 1 0
                     (fst (W 2)) (Some (snd (W 2))))]\<rparr>"

definition CustomAttn_forward :: "layered \<Rightarrow> tensor \<Rightarrow> error + tensor" where
  "CustomAttn_forward m x = Sequential_forward (layers m) x"

subsection \<open>The autoencoder of \<^verbatim>\<open>03_autoencoders.ipynb\<close>\<close>

text \<open>
  \<^verbatim>\<open>MyEncoder.__init__(nlayers=3, nchannels=16)\<close>: \<open>nlayers - 1\<close> convolutions of stride
  two, each followed by a ReLU, then a convolution to one channel and a flatten.
  \<^verbatim>\<open>MyEncoder.forward\<close> inserts the channel dimension into an input of rank two.
\<close>

fun MyEncoder_loop :: "init \<Rightarrow> nat \<Rightarrow> nat \<Rightarrow> nat \<Rightarrow> layer list" where
  "MyEncoder_loop W nchannels i 0 = []"
| "MyEncoder_loop W nchannels i (Suc n) =
     L_Conv1d (Conv1d (if i = 0 then 1 else nchannels) nchannels 5 2 2
                 (fst (W i)) (Some (snd (W i))))
     # L_ReLU
     # MyEncoder_loop W nchannels (Suc i) n"

definition MyEncoder :: "init \<Rightarrow> nat \<Rightarrow> nat \<Rightarrow> layered" where
  "MyEncoder W nlayers nchannels =
     \<lparr>layers = MyEncoder_loop W nchannels 0 (nlayers - 1)
        @ [L_Conv1d (Conv1d nchannels 1 3 1 1
                       (fst (W (nlayers - 1))) (Some (snd (W (nlayers - 1))))),
           L_Flatten]\<rparr>"

definition MyEncoder_forward :: "layered \<Rightarrow> tensor \<Rightarrow> error + tensor" where
  "MyEncoder_forward m x =
     (if length (shape x) = 2
      then then_do (unsqueeze x 1) (\<lambda>x. Sequential_forward (layers m) x)
      else Sequential_forward (layers m) x)"

text \<open>\<^verbatim>\<open>MyDecoder\<close>: transposed convolutions of stride two instead, and no flatten.\<close>

fun MyDecoder_loop :: "init \<Rightarrow> nat \<Rightarrow> nat \<Rightarrow> nat \<Rightarrow> layer list" where
  "MyDecoder_loop W nchannels i 0 = []"
| "MyDecoder_loop W nchannels i (Suc n) =
     L_ConvTranspose1d (ConvTranspose1d (if i = 0 then 1 else nchannels) nchannels 5 2 2 1
                          (fst (W i)) (Some (snd (W i))))
     # L_ReLU
     # MyDecoder_loop W nchannels (Suc i) n"

definition MyDecoder :: "init \<Rightarrow> nat \<Rightarrow> nat \<Rightarrow> layered" where
  "MyDecoder W nlayers nchannels =
     \<lparr>layers = MyDecoder_loop W nchannels 0 (nlayers - 1)
        @ [L_Conv1d (Conv1d nchannels 1 3 1 1
                       (fst (W (nlayers - 1))) (Some (snd (W (nlayers - 1)))))]\<rparr>"

definition MyDecoder_forward :: "layered \<Rightarrow> tensor \<Rightarrow> error + tensor" where
  "MyDecoder_forward m x =
     (if length (shape x) = 2
      then then_do (unsqueeze x 1) (\<lambda>x. Sequential_forward (layers m) x)
      else Sequential_forward (layers m) x)"

text \<open>\<^verbatim>\<open>MyAutoencoder\<close>: an encoder and a decoder; the forward pass runs one after the other.\<close>

record autoencoder =
  enc :: layered
  dec :: layered

definition MyAutoencoder :: "init \<Rightarrow> init \<Rightarrow> nat \<Rightarrow> nat \<Rightarrow> autoencoder" where
  "MyAutoencoder W_enc W_dec nlayers nchannels =
     \<lparr>enc = MyEncoder W_enc nlayers nchannels, dec = MyDecoder W_dec nlayers nchannels\<rparr>"

definition MyAutoencoder_forward :: "autoencoder \<Rightarrow> tensor \<Rightarrow> error + tensor" where
  "MyAutoencoder_forward m x =
     then_do (MyEncoder_forward (enc m) x) (\<lambda>h.
     then_do (MyDecoder_forward (dec m) h) (\<lambda>x_prime.
     Inr x_prime))"

subsection \<open>Small instances\<close>

text \<open>
  A sequence of length two with one channel and an attention layer with two key channels;
  a model whose weights are all zero, and the tensor of zeros of a shape.
\<close>

definition demo_x :: tensor where
  "demo_x = \<lparr>shape = [1, 1, 2], data = [1, 0]\<rparr>"

definition demo_attention :: self_attention where
  "demo_attention = SelfAttention 1 2 2
     (\<lambda>co c k. if co = 0 then 1 else 0) (\<lambda>co c k. 1) (\<lambda>co c k. if co = 0 then 1 else 0)"

definition zero_init :: init where
  "zero_init = (\<lambda>i. (\<lambda>co c k. 0, \<lambda>co. 0))"

definition zeros :: "nat list \<Rightarrow> tensor" where
  "zeros s = \<lparr>shape = s, data = replicate (prod_list s) 0\<rparr>"


section \<open>Properties of the training loops\<close>

lemma test_batch_relabel:
  "test_batch model crit idx (X, y') s = test_batch model crit idx (X, y) s"
  by (simp add: test_batch_def)

lemma test_batches_relabel:
  "test_batches model crit idx (map (\<lambda>(X, y). (X, g X y)) bs) s = test_batches model crit idx bs s"
proof (induction bs arbitrary: idx s)
  case Nil
  show ?case by simp
next
  case (Cons b bs)
  obtain X y where b: "b = (X, y)" by (cases b)
  have "test_batch model crit idx (X, g X y) s = test_batch model crit idx (X, y) s"
    by (rule test_batch_relabel)
  then show ?case by (simp add: b Cons.IH split: sum.splits)
qed

lemma regression_epoch_relabel:
  "regression_epoch model opt crit trdl (relabel g tedl) n le = regression_epoch model opt crit trdl tedl n le"
  by (intro ext) (simp add: regression_epoch_def relabel_def test_batches_relabel split: sum.splits)

lemma test_batch_world: "test_batch model crit idx b s = Inr s' \<Longrightarrow> world s' = world s"
  by (cases b) (auto simp: test_batch_def split: sum.splits if_splits)

lemma test_batch_length: "test_batch model crit idx b s = Inr s' \<Longrightarrow> length (test_loss s') = length (test_loss s)"
  by (cases b) (auto simp: test_batch_def split: sum.splits if_splits)

lemma test_batch_value:
  "test_batch model crit idx b s = Inr s' \<Longrightarrow>
   idx < length (test_loss s) \<and>
   (\<exists>p. forward model (world s) (fst b) = Inr p \<and> crit p (fst b) = Inr (test_loss s' ! idx)) \<and>
   (\<forall>k. k \<noteq> idx \<longrightarrow> test_loss s' ! k = test_loss s ! k)"
  by (cases b) (auto simp: test_batch_def split: sum.splits if_splits)

lemma test_batches_value:
  "test_batches model crit idx bs s = Inr s' \<Longrightarrow>
   world s' = world s \<and> length (test_loss s') = length (test_loss s) \<and>
   idx + length bs \<le> max idx (length (test_loss s)) \<and>
   (\<forall>k < length bs. \<exists>p. forward model (world s) (fst (bs ! k)) = Inr p
        \<and> crit p (fst (bs ! k)) = Inr (test_loss s' ! (idx + k))) \<and>
   (\<forall>k < idx. test_loss s' ! k = test_loss s ! k)"
proof (induction bs arbitrary: idx s)
  case Nil
  then show ?case by simp
next
  case (Cons b bs)
  from Cons.prems obtain s1 where s1: "test_batch model crit idx b s = Inr s1"
    and rest: "test_batches model crit (Suc idx) bs s1 = Inr s'"
    by (auto split: sum.splits)
  note h = test_batch_value[OF s1] test_batch_world[OF s1] test_batch_length[OF s1]
  note ih = Cons.IH[OF rest]
  show ?case
  proof (intro conjI allI impI)
    show "world s' = world s" using ih h by simp
    show "length (test_loss s') = length (test_loss s)" using ih h by simp
    show "idx + length (b # bs) \<le> max idx (length (test_loss s))" using ih h by simp
  next
    fix k assume k: "k < length (b # bs)"
    show "\<exists>p. forward model (world s) (fst ((b # bs) ! k)) = Inr p
        \<and> crit p (fst ((b # bs) ! k)) = Inr (test_loss s' ! (idx + k))"
    proof (cases k)
      case 0
      have "test_loss s' ! idx = test_loss s1 ! idx" using ih by simp
      with h 0 show ?thesis by auto
    next
      case (Suc j)
      with k have "j < length bs" by simp
      with ih obtain p where "forward model (world s1) (fst (bs ! j)) = Inr p"
        "crit p (fst (bs ! j)) = Inr (test_loss s' ! (Suc idx + j))" by blast
      with Suc h show ?thesis by auto
    qed
  next
    fix k assume "k < idx"
    then show "test_loss s' ! k = test_loss s ! k" using ih h by auto
  qed
qed






lemma record_epoch_Inr:
  "record_epoch e n le s = Inr s' \<Longrightarrow>
   s' = s\<lparr>train_losses := train_losses s @ [mean (train_loss s)],
          test_losses := test_losses s @ [mean (test_loss s)]\<rparr>"
  by (auto simp: record_epoch_def Let_def split: if_splits)








lemma regression_epoch_test_values:
  assumes run: "regression_epoch model opt crit trdl tedl n le e s = Inr s'"
    and k: "k < length (batches tedl e)"
  shows "\<exists>p. forward model (world s') (fst (batches tedl e ! k)) = Inr p
           \<and> crit p (fst (batches tedl e ! k)) = Inr (test_loss s' ! k)"
proof -
  from run obtain s1 s2 where
    te: "test_batches model crit 0 (batches tedl e) (s1\<lparr>world := set_mode model False (world s1)\<rparr>) = Inr s2"
    and re: "record_epoch e n le s2 = Inr s'"
    by (auto simp: regression_epoch_def split: sum.splits)
  from test_batches_value[OF te] k obtain p where
    "forward model (set_mode model False (world s1)) (fst (batches tedl e ! k)) = Inr p"
    "crit p (fst (batches tedl e ! k)) = Inr (test_loss s2 ! k)"
    and "world s2 = set_mode model False (world s1)" by auto
  moreover have "world s' = world s2" "test_loss s' = test_loss s2"
    using record_epoch_Inr[OF re] by simp_all
  ultimately show ?thesis by simp
qed

lemma train_regression_relabel:
  "train_regression model opt crit trdl (relabel g tedl) n le w
     = train_regression model opt crit trdl tedl n le w"
proof -
  have "len (relabel g tedl) = len tedl" by (simp add: relabel_def)
  then show ?thesis
    by (simp add: train_regression_def regression_epoch_relabel init_lstate_def)
qed

lemma pdata_opt_step:
  "a \<notin> set (param_group opt) \<Longrightarrow> pdata (opt_step opt w) a = pdata w a"
  by (simp add: opt_step_def)

lemma pdata_zero_grad: "pdata (zero_grad opt w) = pdata w"
  by (simp add: zero_grad_def)

lemma pdata_backward: "pdata (backward model X t w) = pdata w"
  by (simp add: backward_def)

lemma pdata_set_mode: "pdata (set_mode model b w) = pdata w"
  by (simp add: set_mode_def)

lemma train_batch_frame:
  assumes "a \<notin> set (param_group opt)"
  shows "pdata (world (final_state (train_batch model opt crit tgt idx b s))) a = pdata (world s) a"
  using assms
  by (simp add: train_batch_def final_state_def Let_def pdata_opt_step pdata_zero_grad
        pdata_backward split: sum.splits)

lemma train_batches_frame:
  assumes "a \<notin> set (param_group opt)"
  shows "pdata (world (final_state (train_batches model opt crit tgt idx bs s))) a = pdata (world s) a"
proof (induction bs arbitrary: idx s)
  case Nil
  show ?case by (simp add: final_state_def)
next
  case (Cons b bs)
  show ?case
  proof (cases "train_batch model opt crit tgt idx b s")
    case (Inl r)
    with train_batch_frame[OF assms, of model crit tgt idx b s] show ?thesis by simp
  next
    case (Inr s1)
    with train_batch_frame[OF assms, of model crit tgt idx b s]
    have "pdata (world s1) a = pdata (world s) a" by (simp add: final_state_def)
    with Cons.IH[of "Suc idx" s1] Inr show ?thesis by simp
  qed
qed

lemma test_batch_frame:
  "world (final_state (test_batch model crit idx b s)) = world s"
  by (cases b) (simp add: test_batch_def final_state_def split: sum.splits)

lemma test_batches_frame:
  "world (final_state (test_batches model crit idx bs s)) = world s"
proof (induction bs arbitrary: idx s)
  case Nil
  show ?case by (simp add: final_state_def)
next
  case (Cons b bs)
  show ?case
  proof (cases "test_batch model crit idx b s")
    case (Inl r)
    with test_batch_frame[of model crit idx b s] show ?thesis by simp
  next
    case (Inr s1)
    with test_batch_frame[of model crit idx b s]
    have "world s1 = world s" by (simp add: final_state_def)
    with Cons.IH[of "Suc idx" s1] Inr show ?thesis by simp
  qed
qed

lemma record_epoch_frame:
  "world (final_state (record_epoch e n le s)) = world s"
  by (simp add: record_epoch_def final_state_def Let_def)

lemma regression_epoch_frame:
  assumes "a \<notin> set (param_group opt)"
  shows "pdata (world (final_state (regression_epoch model opt crit trdl tedl n le e s))) a
           = pdata (world s) a"
proof -
  let ?s0 = "s\<lparr>world := set_mode model True (world s)\<rparr>"
  let ?tr = "train_batches model opt crit snd 0 (batches trdl e) ?s0"
  have tr: "pdata (world (final_state ?tr)) a = pdata (world s) a"
    using train_batches_frame[OF assms, of model crit snd 0 "batches trdl e" ?s0]
    by (simp add: pdata_set_mode)
  show ?thesis
  proof (cases ?tr)
    case (Inl r)
    with tr show ?thesis by (simp add: regression_epoch_def)
  next
    case (Inr s1)
    let ?s1 = "s1\<lparr>world := set_mode model False (world s1)\<rparr>"
    let ?te = "test_batches model crit 0 (batches tedl e) ?s1"
    from Inr tr have s1: "pdata (world s1) a = pdata (world s) a" by (simp add: final_state_def)
    have te: "world (final_state ?te) = set_mode model False (world s1)"
      using test_batches_frame[of model crit 0 "batches tedl e" ?s1] by simp
    show ?thesis
    proof (cases ?te)
      case (Inl r)
      with te s1 Inr show ?thesis
        by (simp add: regression_epoch_def pdata_set_mode)
    next
      case Inr2: (Inr s2)
      with te have "world s2 = set_mode model False (world s1)" by (simp add: final_state_def)
      with s1 Inr Inr2 show ?thesis
        by (simp add: regression_epoch_def record_epoch_frame pdata_set_mode)
    qed
  qed
qed

lemma epochs_frame:
  assumes "\<And>e s. pdata (world (final_state (body e s))) a = pdata (world s) a"
  shows "pdata (world (final_state (epochs body es s))) a = pdata (world s) a"
proof (induction es arbitrary: s)
  case Nil
  show ?case by (simp add: final_state_def)
next
  case (Cons e es)
  show ?case
  proof (cases "body e s")
    case (Inl r)
    with assms[of e s] show ?thesis by simp
  next
    case (Inr s1)
    with assms[of e s] have "pdata (world s1) a = pdata (world s) a" by (simp add: final_state_def)
    with Cons.IH[of s1] Inr show ?thesis by simp
  qed
qed

lemma train_regression_frame:
  assumes "a \<notin> set (param_group opt)"
  shows "pdata (world (final_state (train_regression model opt crit trdl tedl n le w))) a = pdata w a"
proof -
  have "pdata (world (final_state (epochs (regression_epoch model opt crit trdl tedl n le) [0..<n]
           (init_lstate trdl tedl w)))) a = pdata (world (init_lstate trdl tedl w)) a"
    by (rule epochs_frame) (rule regression_epoch_frame[OF assms])
  then show ?thesis by (simp add: train_regression_def init_lstate_def)
qed

lemmas demo_defs = demo_world_def demo_module_def demo_crit_def demo_loader_def demo_opt_def AdamW_def
  train_regression_def train_autoencoder_def regression_epoch_def autoencoder_epoch_def
  init_lstate_def train_batch_def test_batch_def record_epoch_def mean_def
  backward_def opt_step_def zero_grad_def set_mode_def Let_def

lemma demo_regression_epoch:
  "\<exists>s. regression_epoch (demo_module 0) (demo_opt 0) demo_crit demo_loader demo_loader 1 2 0
          (init_lstate demo_loader demo_loader demo_world) = Inr s \<and> test_loss s = [1 / 4]"
  by (simp add: demo_defs)










text \<open>
  Claim C8. In \<^verbatim>\<open>train_regression\<close>, for every epoch and every test batch
  \<^verbatim>\<open>(X_test, y_test)\<close>, the recorded test loss is \<^verbatim>\<open>crit(model(X_test), X_test)\<close>:
  the prediction is compared with the input batch, not with the target, and
  \<^verbatim>\<open>y_test\<close> is never used. First conjunct: after an epoch, entry \<open>k\<close> of the test
  buffer is the criterion of the model's prediction for the \<open>k\<close>-th test input against
  that input. Second conjunct: replacing the targets of the test loader by anything else
  changes nothing of the run.
\<close>

theorem train_regression_test_loss_against_input:
  "(regression_epoch model opt crit train_dataloader test_dataloader max_epochs log_every epoch s
        = Inr s'
      \<and> k < length (batches test_dataloader epoch) \<longrightarrow>
      (\<exists>X_prime_test.
          forward model (world s') (fst (batches test_dataloader epoch ! k)) = Inr X_prime_test
        \<and> crit X_prime_test (fst (batches test_dataloader epoch ! k)) = Inr (test_loss s' ! k)))
   \<and> train_regression model opt crit train_dataloader (relabel g test_dataloader) max_epochs
         log_every w
       = train_regression model opt crit train_dataloader test_dataloader max_epochs log_every w"
  using regression_epoch_test_values train_regression_relabel by blast

theorem train_regression_test_loss_against_input_witness:
  "\<exists>s'. regression_epoch (demo_module 0) (demo_opt 0) demo_crit demo_loader demo_loader 1 2 0
            (init_lstate demo_loader demo_loader demo_world) = Inr s'
      \<and> (0::nat) < length (batches demo_loader 0)
      \<and> (\<exists>X_prime_test.
            forward (demo_module 0) (world s') (fst (batches demo_loader 0 ! 0)) = Inr X_prime_test
          \<and> demo_crit X_prime_test (fst (batches demo_loader 0 ! 0)) = Inr (test_loss s' ! 0))
      \<and> test_loss s' = [1 / 4]
      \<and> train_regression (demo_module 0) (demo_opt 0) demo_crit demo_loader
           (relabel (\<lambda>e X y. y + 7) demo_loader) 1 2 demo_world
         = train_regression (demo_module 0) (demo_opt 0) demo_crit demo_loader demo_loader 1 2
             demo_world"
proof -
  obtain s' where s': "regression_epoch (demo_module 0) (demo_opt 0) demo_crit demo_loader
      demo_loader 1 2 0 (init_lstate demo_loader demo_loader demo_world) = Inr s'"
      "test_loss s' = [1 / 4]"
    using demo_regression_epoch by blast
  have k: "(0::nat) < length (batches demo_loader 0)"
    by (simp add: demo_loader_def)
  from train_regression_test_loss_against_input[of "demo_module 0" "demo_opt 0" demo_crit
      demo_loader demo_loader 1 2 0 "init_lstate demo_loader demo_loader demo_world" s' 0
      "\<lambda>e X y. y + 7" demo_world] s' k
  show ?thesis by blast
qed

text \<open>
  Claim C10. The optimizers used to train the attention models (\<^verbatim>\<open>attoptim\<close>,
  \<^verbatim>\<open>tattoptim\<close>) are constructed from \<^verbatim>\<open>plainfcn.parameters()\<close>. So every
  \<^verbatim>\<open>opt.step()\<close> changes parameters of \<^verbatim>\<open>plainfcn\<close> only, and every parameter of
  the model being trained (\<^verbatim>\<open>attmodel\<close> or \<^verbatim>\<open>tattmodel\<close>, a module sharing no
  parameter with \<^verbatim>\<open>plainfcn\<close>) has at the end of \<^verbatim>\<open>train_regression\<close>, whether it
  returns or raises, the value it had at the start. The statement holds for every number
  of epochs and every loader, hence at every point the run passes through.
\<close>

theorem attention_optimizer_leaves_model_parameters:
  assumes "set (parameters plainfcn) \<inter> set (parameters model) = {}"
    and "attoptim = AdamW (parameters plainfcn) r adv"
  shows "(\<forall>w a. a \<notin> set (parameters plainfcn) \<longrightarrow> pdata (opt_step attoptim w) a = pdata w a)
       \<and> (\<forall>a \<in> set (parameters model).
            pdata (world (final_state
              (train_regression model attoptim attcrit train_loader test_loader max_epochs
                 log_every w))) a
            = pdata w a)"
proof -
  have g: "param_group attoptim = parameters plainfcn"
    using assms(2) by (simp add: AdamW_def)
  have "\<forall>w a. a \<notin> set (parameters plainfcn) \<longrightarrow> pdata (opt_step attoptim w) a = pdata w a"
    using pdata_opt_step[of _ attoptim] g by simp
  moreover have "\<forall>a \<in> set (parameters model).
            pdata (world (final_state
              (train_regression model attoptim attcrit train_loader test_loader max_epochs
                 log_every w))) a
            = pdata w a"
  proof
    fix a assume "a \<in> set (parameters model)"
    with assms(1) g have "a \<notin> set (param_group attoptim)" by auto
    then show "pdata (world (final_state
              (train_regression model attoptim attcrit train_loader test_loader max_epochs
                 log_every w))) a
            = pdata w a" by (rule train_regression_frame)
  qed
  ultimately show ?thesis by blast
qed

theorem attention_optimizer_leaves_model_parameters_witness:
  "set (parameters (demo_module 0)) \<inter> set (parameters (demo_module 1)) = {}
   \<and> demo_opt 0 = AdamW (parameters (demo_module 0)) (\<lambda>st b v g. v - g / 4) (\<lambda>st g. st)
   \<and> pdata (world (final_state
              (train_regression (demo_module 1) (demo_opt 0) demo_crit demo_loader demo_loader 2 2
                 demo_world))) 1
       = pdata demo_world 1
   \<and> (\<exists>s. train_regression (demo_module 1) (demo_opt 0) demo_crit demo_loader demo_loader 2 2
              demo_world = Inr s \<and> train_losses s = [1, 1])"
proof -
  have d: "set (parameters (demo_module 0)) \<inter> set (parameters (demo_module 1)) = {}"
    by (simp add: demo_module_def)
  have o: "demo_opt 0 = AdamW (parameters (demo_module 0)) (\<lambda>st b v g. v - g / 4) (\<lambda>st g. st)"
    by (simp add: demo_opt_def demo_module_def)
  have m: "1 \<in> set (parameters (demo_module 1))"
    by (simp add: demo_module_def)
  have r: "\<exists>s. train_regression (demo_module 1) (demo_opt 0) demo_crit demo_loader demo_loader 2 2
              demo_world = Inr s \<and> train_losses s = [1, 1]"
    by (simp add: demo_defs upt_rec)
  from attention_optimizer_leaves_model_parameters[where attcrit = demo_crit
        and train_loader = demo_loader and test_loader = demo_loader
        and max_epochs = 2 and log_every = 2 and w = demo_world, OF d o] m d o r
  show ?thesis by blast
qed

section \<open>Properties of the self-attention layer\<close>

lemma shape_tabulate3: "shape (tabulate3 B C L f) = [B, C, L]"
  by (simp add: tabulate3_def)

lemma flat_index_bound:
  assumes "b < B" "c < C" "l < (L::nat)"
  shows "(b * C + c) * L + l < B * C * L"
proof -
  have "b * C + c < B * C"
  proof -
    have "b * C + c < b * C + C" using assms by simp
    also have "\<dots> = (Suc b) * C" by simp
    also have "\<dots> \<le> B * C" using assms(1) by (intro mult_le_mono1) simp
    finally show ?thesis .
  qed
  then have "Suc (b * C + c) \<le> B * C" by simp
  then have "Suc (b * C + c) * L \<le> B * C * L" by (rule mult_le_mono1)
  moreover have "(b * C + c) * L + l < Suc (b * C + c) * L" using assms(3) by simp
  ultimately show ?thesis by linarith
qed

lemma flat_index_split:
  assumes "c < C" "l < (L::nat)"
  shows "((b * C + c) * L + l) div (C * L) = b"
    and "((b * C + c) * L + l) div L mod C = c"
    and "((b * C + c) * L + l) mod L = l"
proof -
  have dl: "((b * C + c) * L + l) div L = b * C + c" using assms(2) by simp
  show "((b * C + c) * L + l) div L mod C = c" using dl assms(1) by simp
  show "((b * C + c) * L + l) mod L = l" using assms(2) by simp
  have "((b * C + c) * L + l) div (C * L) = ((b * C + c) * L + l) div (L * C)"
    by (simp only: mult.commute[of C L])
  also have "\<dots> = (((b * C + c) * L + l) div L) div C"
    by (rule div_mult2_eq)
  also have "\<dots> = (b * C + c) div C" using dl by simp
  also have "\<dots> = b" using assms(1) by simp
  finally show "((b * C + c) * L + l) div (C * L) = b" .
qed

lemma at3_tabulate3:
  assumes "b < B" "c < C" "l < L"
  shows "at3 (tabulate3 B C L f) b c l = f b c l"
proof -
  have "(b * C + c) * L + l < B * C * L" using assms by (rule flat_index_bound)
  then show ?thesis
    using flat_index_split[OF assms(2,3), of b]
    by (simp add: at3_def tabulate3_def)
qed

lemma tabulate3_index_range:
  fixes idx B C L :: nat
  assumes "idx < B * C * L"
  shows "idx div (C * L) < B" and "idx div L mod C < C" and "idx mod L < L"
proof -
  from assms have L: "0 < L" by (cases L) simp_all
  from assms have C: "0 < C" by (cases C) simp_all
  show "idx mod L < L" using L by simp
  show "idx div L mod C < C" using C by simp
  have "idx < B * (C * L)" using assms by (simp add: mult.assoc)
  then show "idx div (C * L) < B"
    using C L by (simp add: less_mult_imp_div_less)
qed

lemma tabulate3_cong:
  assumes "\<And>b c l. b < B \<Longrightarrow> c < C \<Longrightarrow> l < L \<Longrightarrow> f b c l = g b c l"
  shows "tabulate3 B C L f = tabulate3 B C L g"
proof -
  have "\<forall>idx \<in> set [0..<B * C * L].
          f (idx div (C * L)) (idx div L mod C) (idx mod L)
        = g (idx div (C * L)) (idx div L mod C) (idx mod L)"
  proof
    fix idx assume "idx \<in> set [0..<B * C * L]"
    then have "idx < B * C * L" by simp
    from assms[OF tabulate3_index_range[OF this]]
    show "f (idx div (C * L)) (idx div L mod C) (idx mod L)
        = g (idx div (C * L)) (idx div L mod C) (idx mod L)" .
  qed
  then show ?thesis by (simp add: tabulate3_def)
qed

lemma then_do_Inr: "then_do (Inr v) f = f v"
  by (simp add: then_do_def)

lemma then_do_Inl: "then_do (Inl e) f = Inl e"
  by (simp add: then_do_def)

lemma conv1d_pointwise:
  assumes "shape x = [N, C, L]" "0 < L" "0 < C" "0 < cout"
  shows "conv1d_forward (Conv1d C cout 1 1 0 w None) x = Inr (tabulate3 N cout L (projection w x))"
proof -
  have "tabulate3 N cout L
          (\<lambda>n co t. 0 + (\<Sum>c \<leftarrow> [0..<C]. \<Sum>k \<leftarrow> [0..<1]. w co c k * padded x 0 L n c (t * 1 + k)))
        = tabulate3 N cout L (projection w x)"
  proof (rule tabulate3_cong)
    fix b c l assume "l < L"
    then show "0 + (\<Sum>c' \<leftarrow> [0..<C]. \<Sum>k \<leftarrow> [0..<1]. w c c' k * padded x 0 L b c' (l * 1 + k))
             = projection w x b c l"
      by (simp add: projection_def padded_def assms(1))
  qed
  then show ?thesis
    using assms by (simp add: conv1d_forward_def conv1d_batched_def Conv1d_def)
qed

lemma transpose_last_tabulate3:
  "transpose_last (tabulate3 B R C f) = Inr (tabulate3 B C R (\<lambda>b i j. f b j i))"
proof -
  have "tabulate3 B C R (\<lambda>b i j. at3 (tabulate3 B R C f) b j i) = tabulate3 B C R (\<lambda>b i j. f b j i)"
    by (rule tabulate3_cong) (simp add: at3_tabulate3)
  then show ?thesis by (simp add: transpose_last_def transpose_batched_def shape_tabulate3)
qed

lemma matmul_tabulate3:
  "matmul (tabulate3 B n m f) (tabulate3 B m p g)
     = Inr (tabulate3 B n p (\<lambda>b i l. \<Sum>j \<leftarrow> [0..<m]. f b i j * g b j l))"
proof -
  have "tabulate3 B n p (\<lambda>b i l. \<Sum>j \<leftarrow> [0..<m]. at3 (tabulate3 B n m f) b i j * at3 (tabulate3 B m p g) b j l)
      = tabulate3 B n p (\<lambda>b i l. \<Sum>j \<leftarrow> [0..<m]. f b i j * g b j l)"
  proof (rule tabulate3_cong)
    fix b i l assume "b < B" "i < n" "l < p"
    then have "\<And>j. j \<in> set [0..<m] \<Longrightarrow>
        at3 (tabulate3 B n m f) b i j * at3 (tabulate3 B m p g) b j l = f b i j * g b j l"
      by (simp add: at3_tabulate3)
    then show "(\<Sum>j \<leftarrow> [0..<m]. at3 (tabulate3 B n m f) b i j * at3 (tabulate3 B m p g) b j l)
             = (\<Sum>j \<leftarrow> [0..<m]. f b i j * g b j l)"
      by (intro arg_cong[where f = sum_list] map_cong) simp_all
  qed
  then show ?thesis by (simp add: matmul_def matmul_batched_def shape_tabulate3)
qed

lemma softmax_dim_m2_tabulate3:
  "softmax_dim_m2 (tabulate3 B R C f)
     = Inr (tabulate3 B R C (\<lambda>b i j. exp (f b i j) / (\<Sum>i' \<leftarrow> [0..<R]. exp (f b i' j))))"
proof -
  have "tabulate3 B R C (\<lambda>b i j. exp (at3 (tabulate3 B R C f) b i j)
            / (\<Sum>i' \<leftarrow> [0..<R]. exp (at3 (tabulate3 B R C f) b i' j)))
      = tabulate3 B R C (\<lambda>b i j. exp (f b i j) / (\<Sum>i' \<leftarrow> [0..<R]. exp (f b i' j)))"
  proof (rule tabulate3_cong)
    fix b i j assume h: "b < B" "i < R" "j < C"
    then have "\<And>i'. i' \<in> set [0..<R] \<Longrightarrow> exp (at3 (tabulate3 B R C f) b i' j) = exp (f b i' j)"
      by (simp add: at3_tabulate3)
    then have "(\<Sum>i' \<leftarrow> [0..<R]. exp (at3 (tabulate3 B R C f) b i' j))
             = (\<Sum>i' \<leftarrow> [0..<R]. exp (f b i' j))"
      by (intro arg_cong[where f = sum_list] map_cong) simp_all
    with h show "exp (at3 (tabulate3 B R C f) b i j)
            / (\<Sum>i' \<leftarrow> [0..<R]. exp (at3 (tabulate3 B R C f) b i' j))
          = exp (f b i j) / (\<Sum>i' \<leftarrow> [0..<R]. exp (f b i' j))"
      by (simp add: at3_tabulate3)
  qed
  then show ?thesis by (simp add: softmax_dim_m2_def softmax_m2_batched_def shape_tabulate3)
qed

lemma SelfAttention_forward_weights:
  "SelfAttention_forward sa x
     = then_do (SelfAttention_weights sa x) (\<lambda>(A, V). matmul A V)"
  by (simp add: SelfAttention_forward_def SelfAttention_weights_def then_do_def
        split: sum.splits)

lemma scores_tensor:
  assumes "shape x = [B, cin, L]"
  shows "matmul (tabulate3 B ckey L (projection wQ x)) (tabulate3 B L ckey (\<lambda>b i j. projection wK x b j i))
           = Inr (tabulate3 B ckey ckey (scores wQ wK x))"
proof -
  have "(\<lambda>b i l. \<Sum>j \<leftarrow> [0..<L]. projection wQ x b i j * projection wK x b l j) = scores wQ wK x"
    by (intro ext) (simp add: scores_def assms)
  then show ?thesis by (simp add: matmul_tabulate3)
qed

lemma SelfAttention_weights_eq:
  assumes "shape x = [B, cin, L]" "0 < L" "0 < cin" "0 < ckey" "0 < cout"
  shows "SelfAttention_weights (SelfAttention cin cout ckey wQ wK wV) x
           = Inr (tabulate3 B ckey ckey (attention_weight wQ wK x ckey),
                  tabulate3 B cout L (projection wV x))"
proof -
  have "(\<lambda>b i j. exp (scores wQ wK x b i j) / (\<Sum>i' \<leftarrow> [0..<ckey]. exp (scores wQ wK x b i' j)))
          = attention_weight wQ wK x ckey"
    by (intro ext) (simp add: attention_weight_def)
  then show ?thesis
    unfolding SelfAttention_weights_def SelfAttention_def
    by (simp only: self_attention.select_convs then_do_Inr
        conv1d_pointwise[OF assms(1,2,3,4)] conv1d_pointwise[OF assms(1,2,3,5)]
        transpose_last_tabulate3 scores_tensor[OF assms(1)] softmax_dim_m2_tabulate3)
qed

lemma SelfAttention_forward_eq:
  assumes "shape x = [B, cin, L]" "0 < L" "0 < cin" "0 < ckey"
  shows "SelfAttention_forward (SelfAttention cin ckey ckey wQ wK wV) x
           = Inr (tabulate3 B ckey L
                    (\<lambda>b i l. \<Sum>j \<leftarrow> [0..<ckey]. attention_weight wQ wK x ckey b i j * projection wV x b j l))"
  by (simp add: SelfAttention_forward_weights SelfAttention_weights_eq[OF assms assms(4)]
        then_do_Inr matmul_tabulate3)

lemma SelfAttention_forward_mismatch:
  assumes "shape x = [B, cin, L]" "0 < L" "0 < cin" "0 < ckey" "0 < cout" "cout \<noteq> ckey"
  shows "SelfAttention_forward (SelfAttention cin cout ckey wQ wK wV) x = Inl RuntimeError"
  using assms(6)
  by (simp add: SelfAttention_forward_weights SelfAttention_weights_eq[OF assms(1-5)] then_do_Inr
        matmul_def matmul_batched_def shape_tabulate3)

lemma SelfAttention_forward_empty_sequence:
  assumes "shape x = [B, cin, 0]"
  shows "SelfAttention_forward (SelfAttention cin cout ckey wQ wK wV) x = Inl RuntimeError"
  using assms
  by (simp add: SelfAttention_forward_def SelfAttention_def then_do_def conv1d_forward_def conv1d_batched_def Conv1d_def)

lemma sum_list_exp_pos:
  assumes "0 < n"
  shows "0 < (\<Sum>i \<leftarrow> [0..<n]. exp (f i :: real))"
proof -
  have "(\<Sum>i \<leftarrow> [0..<n]. exp (f i)) = (\<Sum>i \<in> {0..<n}. exp (f i))"
    by (simp add: interv_sum_list_conv_sum_set_nat)
  also have "0 < \<dots>" using assms by (intro sum_pos) simp_all
  finally show ?thesis .
qed


lemma softmax_scores:
  "softmax_dim_m2 (tabulate3 B ckey ckey (scores wQ wK x))
     = Inr (tabulate3 B ckey ckey (attention_weight wQ wK x ckey))"
proof -
  have "(\<lambda>b i j. exp (scores wQ wK x b i j) / (\<Sum>i' \<leftarrow> [0..<ckey]. exp (scores wQ wK x b i' j)))
          = attention_weight wQ wK x ckey"
    by (intro ext) (simp add: attention_weight_def)
  then show ?thesis by (simp add: softmax_dim_m2_tabulate3)
qed

lemma attention_weight_column_sum:
  assumes "0 < ckey"
  shows "(\<Sum>i \<leftarrow> [0..<ckey]. attention_weight wQ wK x ckey b i j) = 1"
proof -
  let ?Z = "\<Sum>i' \<leftarrow> [0..<ckey]. exp (scores wQ wK x b i' j)"
  have Z: "0 < ?Z" using assms by (rule sum_list_exp_pos)
  have "(\<Sum>i \<leftarrow> [0..<ckey]. attention_weight wQ wK x ckey b i j)
          = (\<Sum>i \<in> {0..<ckey}. exp (scores wQ wK x b i j) / ?Z)"
    by (simp add: interv_sum_list_conv_sum_set_nat attention_weight_def)
  also have "\<dots> = (\<Sum>i \<in> {0..<ckey}. exp (scores wQ wK x b i j)) / ?Z"
    by (simp add: sum_divide_distrib)
  also have "\<dots> = ?Z / ?Z"
    by (simp add: interv_sum_list_conv_sum_set_nat)
  also have "\<dots> = 1" using Z by simp
  finally show ?thesis .
qed

lemma sum_list_upt_cong:
  assumes "\<And>j. j < n \<Longrightarrow> f j = g j"
  shows "(\<Sum>j \<leftarrow> [0..<n]. f j) = (\<Sum>j \<leftarrow> [0..<n]. (g j :: real))"
  using assms by (intro arg_cong[where f = sum_list] map_cong) simp_all

lemma scale_tensor_tabulate3:
  "scale_tensor r (tabulate3 B R C f) = tabulate3 B R C (\<lambda>b i j. r * f b i j)"
  by (simp add: scale_tensor_def tabulate3_def)

lemma softmax_dim_m1_tabulate3:
  "softmax_dim_m1 (tabulate3 B R C f)
     = Inr (tabulate3 B R C (\<lambda>b i j. exp (f b i j) / (\<Sum>j' \<leftarrow> [0..<C]. exp (f b i j'))))"
proof -
  have "tabulate3 B R C (\<lambda>b i j. exp (at3 (tabulate3 B R C f) b i j)
            / (\<Sum>j' \<leftarrow> [0..<C]. exp (at3 (tabulate3 B R C f) b i j')))
      = tabulate3 B R C (\<lambda>b i j. exp (f b i j) / (\<Sum>j' \<leftarrow> [0..<C]. exp (f b i j')))"
  proof (rule tabulate3_cong)
    fix b i j assume h: "b < B" "i < R" "j < C"
    then have "\<And>j'. j' \<in> set [0..<C] \<Longrightarrow> exp (at3 (tabulate3 B R C f) b i j') = exp (f b i j')"
      by (simp add: at3_tabulate3)
    then have "(\<Sum>j' \<leftarrow> [0..<C]. exp (at3 (tabulate3 B R C f) b i j'))
             = (\<Sum>j' \<leftarrow> [0..<C]. exp (f b i j'))"
      by (intro arg_cong[where f = sum_list] map_cong) simp_all
    with h show "exp (at3 (tabulate3 B R C f) b i j)
            / (\<Sum>j' \<leftarrow> [0..<C]. exp (at3 (tabulate3 B R C f) b i j'))
          = exp (f b i j) / (\<Sum>j' \<leftarrow> [0..<C]. exp (f b i j'))"
      by (simp add: at3_tabulate3)
  qed
  then show ?thesis by (simp add: softmax_dim_m1_def softmax_m1_batched_def shape_tabulate3)
qed

lemma scaled_attention_m2_eq:
  assumes "shape x = [B, cin, L]" "0 < L" "0 < cin" "0 < ckey"
  shows "scaled_dot_product_attention softmax_dim_m2 (SelfAttention cin ckey ckey wQ wK wV) x
           = Inr (tabulate3 B ckey L
                    (\<lambda>b i l. \<Sum>j \<leftarrow> [0..<ckey].
                       (exp (1 / sqrt (real ckey) * scores wQ wK x b i j)
                          / (\<Sum>i' \<leftarrow> [0..<ckey]. exp (1 / sqrt (real ckey) * scores wQ wK x b i' j)))
                       * projection wV x b j l))"
proof -
  have "scaled_dot_product_attention softmax_dim_m2 (SelfAttention cin ckey ckey wQ wK wV) x
      = then_do (softmax_dim_m2 (scale_tensor (1 / sqrt (real ckey))
                   (tabulate3 B ckey ckey (scores wQ wK x))))
          (\<lambda>A. matmul A (tabulate3 B ckey L (projection wV x)))"
    unfolding scaled_dot_product_attention_def SelfAttention_def
    by (simp only: self_attention.select_convs then_do_Inr Conv1d_def conv1d.select_convs
        conv1d_pointwise[OF assms, unfolded Conv1d_def] transpose_last_tabulate3
        scores_tensor[OF assms(1)])
  then show ?thesis
    by (simp only: scale_tensor_tabulate3 softmax_dim_m2_tabulate3 then_do_Inr matmul_tabulate3)
qed

lemma scaled_attention_m1_eq:
  assumes "shape x = [B, cin, L]" "0 < L" "0 < cin" "0 < ckey"
  shows "scaled_dot_product_attention softmax_dim_m1 (SelfAttention cin ckey ckey wQ wK wV) x
           = Inr (tabulate3 B ckey L
                    (\<lambda>b i l. \<Sum>j \<leftarrow> [0..<ckey].
                       (exp (1 / sqrt (real ckey) * scores wQ wK x b i j)
                          / (\<Sum>j' \<leftarrow> [0..<ckey]. exp (1 / sqrt (real ckey) * scores wQ wK x b i j')))
                       * projection wV x b j l))"
proof -
  have "scaled_dot_product_attention softmax_dim_m1 (SelfAttention cin ckey ckey wQ wK wV) x
      = then_do (softmax_dim_m1 (scale_tensor (1 / sqrt (real ckey))
                   (tabulate3 B ckey ckey (scores wQ wK x))))
          (\<lambda>A. matmul A (tabulate3 B ckey L (projection wV x)))"
    unfolding scaled_dot_product_attention_def SelfAttention_def
    by (simp only: self_attention.select_convs then_do_Inr Conv1d_def conv1d.select_convs
        conv1d_pointwise[OF assms, unfolded Conv1d_def] transpose_last_tabulate3
        scores_tensor[OF assms(1)])
  then show ?thesis
    by (simp only: scale_tensor_tabulate3 softmax_dim_m1_tabulate3 then_do_Inr matmul_tabulate3)
qed

lemma upt_0_1: "[0..<1] = [0]" by (simp add: upt_rec)

lemma upt_0_2: "[0..<2] = [0, 1]" by (simp add: upt_rec)

lemma shape_zeros: "shape (zeros s) = s"
  by (simp add: zeros_def)

lemma demo_x_shape: "shape demo_x = [1, 1, 2]"
  by (simp add: demo_x_def)

lemma demo_projection:
  "projection (\<lambda>co c k. if co = 0 then 1 else 0) demo_x 0 i l = (if i = 0 \<and> l = 0 then 1 else 0)" if "l < 2"
  using that by (auto simp: projection_def demo_x_def upt_0_1 at3_def less_2_cases_iff)

lemma demo_projection_K:
  "projection (\<lambda>co c k. 1) demo_x 0 i l = (if l = 0 then 1 else 0)" if "l < 2"
  using that by (auto simp: projection_def demo_x_def upt_0_1 at3_def less_2_cases_iff)

lemma demo_value_projection:
  "projection (\<lambda>co c k. if co = 0 then 1 else 0) demo_x 0 j 0 = (if j = 0 then 1 else 0)"
  using demo_projection[of 0 j] by simp

lemma demo_scores:
  "scores (\<lambda>co c k. if co = 0 then 1 else 0) (\<lambda>co c k. 1) demo_x 0 i j = (if i = 0 then 1 else 0)"
proof -
  have "shape demo_x ! 2 = 2" by (simp add: demo_x_def)
  then show ?thesis
    by (simp add: scores_def upt_0_2 demo_projection demo_projection_K)
qed

lemma demo_forward_entry:
  "\<exists>y. SelfAttention_forward demo_attention demo_x = Inr y \<and> shape y = [1, 2, 2]
      \<and> at3 y 0 0 0 = exp 1 / (exp 1 + 1) \<and> at3 y 0 1 0 = 1 / (exp 1 + 1)"
proof -
  let ?wQ = "\<lambda>co c k. if co = (0::nat) then 1 else (0::real)"
  let ?wK = "\<lambda>co c k. (1::real)"
  let ?F = "\<lambda>b i l. \<Sum>j \<leftarrow> [0..<2]. attention_weight ?wQ ?wK demo_x 2 b i j * projection ?wQ demo_x b j l"
  have eq: "SelfAttention_forward demo_attention demo_x = Inr (tabulate3 1 2 2 ?F)"
    unfolding demo_attention_def by (rule SelfAttention_forward_eq[OF demo_x_shape]) simp_all
  have "at3 (tabulate3 1 2 2 ?F) 0 0 0 = ?F 0 0 0" by (rule at3_tabulate3) simp_all
  also have "\<dots> = exp 1 / (exp 1 + 1)"
    by (simp add: upt_0_2 attention_weight_def demo_scores demo_value_projection)
  finally have a: "at3 (tabulate3 1 2 2 ?F) 0 0 0 = exp 1 / (exp 1 + 1)" .
  have "at3 (tabulate3 1 2 2 ?F) 0 1 0 = ?F 0 1 0" by (rule at3_tabulate3) simp_all
  also have "\<dots> = 1 / (exp 1 + 1)"
    by (simp add: upt_0_2 attention_weight_def demo_scores demo_value_projection)
  finally have b: "at3 (tabulate3 1 2 2 ?F) 0 1 0 = 1 / (exp 1 + 1)" .
  show ?thesis using eq a b by (simp add: shape_tabulate3)
qed

lemma demo_scaled_m2_entry:
  "\<exists>y. scaled_dot_product_attention softmax_dim_m2 demo_attention demo_x = Inr y
      \<and> at3 y 0 0 0 = exp (1 / sqrt 2) / (exp (1 / sqrt 2) + 1)"
proof -
  let ?wQ = "\<lambda>co c k. if co = (0::nat) then 1 else (0::real)"
  let ?wK = "\<lambda>co c k. (1::real)"
  let ?F = "\<lambda>b i l. \<Sum>j \<leftarrow> [0..<2].
                       (exp (1 / sqrt (real 2) * scores ?wQ ?wK demo_x b i j)
                          / (\<Sum>i' \<leftarrow> [0..<2]. exp (1 / sqrt (real 2) * scores ?wQ ?wK demo_x b i' j)))
                       * projection ?wQ demo_x b j l"
  have eq: "scaled_dot_product_attention softmax_dim_m2 demo_attention demo_x
              = Inr (tabulate3 1 2 2 ?F)"
    unfolding demo_attention_def by (rule scaled_attention_m2_eq[OF demo_x_shape]) simp_all
  have "at3 (tabulate3 1 2 2 ?F) 0 0 0 = ?F 0 0 0" by (rule at3_tabulate3) simp_all
  also have "\<dots> = exp (1 / sqrt 2) / (exp (1 / sqrt 2) + 1)"
    by (simp add: upt_0_2 demo_scores demo_value_projection)
  finally show ?thesis using eq by simp
qed

lemma demo_scaled_m1_entry:
  "\<exists>y. scaled_dot_product_attention softmax_dim_m1 demo_attention demo_x = Inr y
      \<and> at3 y 0 0 0 = 1 / 2"
proof -
  let ?wQ = "\<lambda>co c k. if co = (0::nat) then 1 else (0::real)"
  let ?wK = "\<lambda>co c k. (1::real)"
  let ?F = "\<lambda>b i l. \<Sum>j \<leftarrow> [0..<2].
                       (exp (1 / sqrt (real 2) * scores ?wQ ?wK demo_x b i j)
                          / (\<Sum>j' \<leftarrow> [0..<2]. exp (1 / sqrt (real 2) * scores ?wQ ?wK demo_x b i j')))
                       * projection ?wQ demo_x b j l"
  have eq: "scaled_dot_product_attention softmax_dim_m1 demo_attention demo_x
              = Inr (tabulate3 1 2 2 ?F)"
    unfolding demo_attention_def by (rule scaled_attention_m1_eq[OF demo_x_shape]) simp_all
  have "at3 (tabulate3 1 2 2 ?F) 0 0 0 = ?F 0 0 0" by (rule at3_tabulate3) simp_all
  also have "\<dots> = 1 / 2"
    by (simp add: upt_0_2 demo_scores demo_value_projection)
  finally show ?thesis using eq by simp
qed

lemma exp_ratio_neq_scaled: "exp 1 / (exp 1 + 1) \<noteq> exp (1 / sqrt 2) / (exp (1 / sqrt 2) + (1::real))"
proof
  let ?a = "exp (1::real)" and ?b = "exp (1 / sqrt 2 :: real)"
  assume "?a / (?a + 1) = ?b / (?b + 1)"
  moreover have "0 < ?a + 1" "0 < ?b + 1" by (simp_all add: add_pos_pos)
  ultimately have "?a * (?b + 1) = ?b * (?a + 1)" by (simp add: frac_eq_eq)
  then have "?a = ?b" by (simp add: algebra_simps)
  then have "(1::real) = 1 / sqrt 2" by simp
  then have "sqrt 2 = (1::real)" by simp
  then show False by simp
qed

lemma exp_ratio_neq_half: "exp 1 / (exp 1 + 1) \<noteq> (1::real) / 2"
proof
  assume "exp 1 / (exp 1 + 1) = (1::real) / 2"
  moreover have "0 < exp (1::real) + 1" by (simp add: add_pos_pos)
  ultimately have "2 * exp (1::real) = exp 1 + 1" by (simp add: frac_eq_eq)
  then have "exp (1::real) = 1" by simp
  then show False by simp
qed

lemma demo_weights:
  "SelfAttention_weights demo_attention demo_x
     = Inr (tabulate3 1 2 2 (attention_weight (\<lambda>co c k. if co = 0 then 1 else 0) (\<lambda>co c k. 1) demo_x 2),
            tabulate3 1 2 2 (projection (\<lambda>co c k. if co = 0 then 1 else 0) demo_x))"
  unfolding demo_attention_def by (rule SelfAttention_weights_eq[OF demo_x_shape]) simp_all

lemma demo_attention_weight:
  "attention_weight (\<lambda>co c k. if co = 0 then 1 else 0) (\<lambda>co c k. 1) demo_x 2 0 i j
     = (if i = 0 then exp 1 / (exp 1 + 1) else 1 / (exp 1 + 1))"
  by (simp add: attention_weight_def upt_0_2 demo_scores)

text \<open>
  Claim C1 says that \<^verbatim>\<open>SelfAttention.forward\<close> computes scaled dot-product attention,
  with scores scaled by \<open>1 / sqrt key_channels\<close>. The code does not scale: at the
  sequence \<open>[1, 0]\<close> with two key channels its output differs from the scaled formula,
  whichever axis the softmax of the formula normalises (entry \<open>(0, 0, 0)\<close> is
  \<open>e / (e + 1)\<close>, against \<open>exp (1 / sqrt 2) / (exp (1 / sqrt 2) + 1)\<close> and \<open>1 / 2\<close>).
  Nor does it compute anything for every input: the last product raises when the value
  channels differ from the key channels, and the convolutions raise on a sequence of
  length zero.
\<close>

theorem SelfAttention_forward_not_scaled:
  "SelfAttention_forward demo_attention demo_x
     \<noteq> scaled_dot_product_attention softmax_dim_m2 demo_attention demo_x
   \<and> SelfAttention_forward demo_attention demo_x
     \<noteq> scaled_dot_product_attention softmax_dim_m1 demo_attention demo_x
   \<and> SelfAttention_forward (SelfAttention 1 1 2 (\<lambda>co c k. 1) (\<lambda>co c k. 1) (\<lambda>co c k. 1)) demo_x
     = Inl RuntimeError
   \<and> SelfAttention_forward demo_attention (zeros [1, 1, 0]) = Inl RuntimeError"
proof (intro conjI)
  show "SelfAttention_forward demo_attention demo_x
     \<noteq> scaled_dot_product_attention softmax_dim_m2 demo_attention demo_x"
    using demo_forward_entry demo_scaled_m2_entry exp_ratio_neq_scaled by auto
  show "SelfAttention_forward demo_attention demo_x
     \<noteq> scaled_dot_product_attention softmax_dim_m1 demo_attention demo_x"
    using demo_forward_entry demo_scaled_m1_entry exp_ratio_neq_half by auto
  show "SelfAttention_forward (SelfAttention 1 1 2 (\<lambda>co c k. 1) (\<lambda>co c k. 1) (\<lambda>co c k. 1)) demo_x
     = Inl RuntimeError"
    by (rule SelfAttention_forward_mismatch[OF demo_x_shape]) simp_all
  show "SelfAttention_forward demo_attention (zeros [1, 1, 0]) = Inl RuntimeError"
    unfolding demo_attention_def
    by (rule SelfAttention_forward_empty_sequence) (simp add: shape_zeros)
qed

text \<open>
  Claim C1, amended: for every input of shape \<open>(batch, in_channels, L)\<close> with \<open>L \<ge> 1\<close>
  and at least one input channel, and a layer with at least one key channel whose value
  and key channels agree, \<^verbatim>\<open>SelfAttention.forward\<close> returns unscaled dot-product
  attention: \<open>Q\<close>, \<open>K\<close> and \<open>V\<close> are the projections of the input by the three
  convolutions of kernel size one, the scores are the entries of \<open>Q * K\<^sup>T\<close> with no
  factor, the weights \<open>A\<close> are a softmax of the scores, along one of their two axes, and
  the output is the product of \<open>A\<close> and \<open>V\<close>.
\<close>

theorem SelfAttention_forward_unscaled_attention:
  assumes "shape x = [B, cin, L]" and "0 < L" and "0 < cin" and "0 < ckey"
    and "sa = SelfAttention cin ckey ckey wQ wK wV"
  shows "conv1d_forward (conv_Q sa) x = Inr (tabulate3 B ckey L (projection wQ x))
       \<and> conv1d_forward (conv_K sa) x = Inr (tabulate3 B ckey L (projection wK x))
       \<and> conv1d_forward (conv_V sa) x = Inr (tabulate3 B ckey L (projection wV x))
       \<and> (\<exists>A y. (softmax_dim_m2 (tabulate3 B ckey ckey (scores wQ wK x)) = Inr A
                  \<or> softmax_dim_m1 (tabulate3 B ckey ckey (scores wQ wK x)) = Inr A)
              \<and> SelfAttention_forward sa x = Inr y
              \<and> shape y = [B, ckey, L]
              \<and> (\<forall>b < B. \<forall>i < ckey. \<forall>l < L.
                    at3 y b i l = (\<Sum>j \<leftarrow> [0..<ckey]. at3 A b i j * projection wV x b j l)))"
proof -
  let ?A = "tabulate3 B ckey ckey (attention_weight wQ wK x ckey)"
  let ?F = "\<lambda>b i l. \<Sum>j \<leftarrow> [0..<ckey]. attention_weight wQ wK x ckey b i j * projection wV x b j l"
  have A: "softmax_dim_m2 (tabulate3 B ckey ckey (scores wQ wK x)) = Inr ?A
         \<or> softmax_dim_m1 (tabulate3 B ckey ckey (scores wQ wK x)) = Inr ?A"
    by (rule disjI1) (rule softmax_scores)
  have y: "SelfAttention_forward sa x = Inr (tabulate3 B ckey L ?F)"
    unfolding assms(5) by (rule SelfAttention_forward_eq[OF assms(1-4)])
  have e: "\<forall>b < B. \<forall>i < ckey. \<forall>l < L.
             at3 (tabulate3 B ckey L ?F) b i l = (\<Sum>j \<leftarrow> [0..<ckey]. at3 ?A b i j * projection wV x b j l)"
  proof (intro allI impI)
    fix b i l assume h: "b < B" "i < ckey" "l < L"
    have "at3 (tabulate3 B ckey L ?F) b i l = ?F b i l" using h by (rule at3_tabulate3)
    also have "\<dots> = (\<Sum>j \<leftarrow> [0..<ckey]. at3 ?A b i j * projection wV x b j l)"
      using h by (intro sum_list_upt_cong) (simp add: at3_tabulate3)
    finally show "at3 (tabulate3 B ckey L ?F) b i l
                    = (\<Sum>j \<leftarrow> [0..<ckey]. at3 ?A b i j * projection wV x b j l)" .
  qed
  have "conv1d_forward (conv_Q sa) x = Inr (tabulate3 B ckey L (projection wQ x))"
    "conv1d_forward (conv_K sa) x = Inr (tabulate3 B ckey L (projection wK x))"
    "conv1d_forward (conv_V sa) x = Inr (tabulate3 B ckey L (projection wV x))"
    unfolding assms(5) SelfAttention_def
    by (simp_all only: self_attention.select_convs conv1d_pointwise[OF assms(1-4)])
  moreover have "\<exists>A y. (softmax_dim_m2 (tabulate3 B ckey ckey (scores wQ wK x)) = Inr A
                  \<or> softmax_dim_m1 (tabulate3 B ckey ckey (scores wQ wK x)) = Inr A)
              \<and> SelfAttention_forward sa x = Inr y
              \<and> shape y = [B, ckey, L]
              \<and> (\<forall>b < B. \<forall>i < ckey. \<forall>l < L.
                    at3 y b i l = (\<Sum>j \<leftarrow> [0..<ckey]. at3 A b i j * projection wV x b j l))"
  proof (intro exI conjI)
    show "softmax_dim_m2 (tabulate3 B ckey ckey (scores wQ wK x)) = Inr ?A
         \<or> softmax_dim_m1 (tabulate3 B ckey ckey (scores wQ wK x)) = Inr ?A" by (rule A)
    show "SelfAttention_forward sa x = Inr (tabulate3 B ckey L ?F)" by (rule y)
    show "shape (tabulate3 B ckey L ?F) = [B, ckey, L]" by (rule shape_tabulate3)
    show "\<forall>b < B. \<forall>i < ckey. \<forall>l < L.
             at3 (tabulate3 B ckey L ?F) b i l
               = (\<Sum>j \<leftarrow> [0..<ckey]. at3 ?A b i j * projection wV x b j l)" by (rule e)
  qed
  ultimately show ?thesis by (intro conjI)
qed

theorem SelfAttention_forward_unscaled_attention_witness:
  "shape demo_x = [1, 1, 2] \<and> (0::nat) < 2 \<and> (0::nat) < 1
   \<and> demo_attention = SelfAttention 1 2 2
        (\<lambda>co c k. if co = 0 then 1 else 0) (\<lambda>co c k. 1) (\<lambda>co c k. if co = 0 then 1 else 0)
   \<and> (\<exists>y. SelfAttention_forward demo_attention demo_x = Inr y \<and> shape y = [1, 2, 2])"
proof -
  have z: "(0::nat) < 2" and o: "(0::nat) < 1" by simp_all
  from SelfAttention_forward_unscaled_attention[OF demo_x_shape z o z demo_attention_def]
  have "\<exists>y. SelfAttention_forward demo_attention demo_x = Inr y \<and> shape y = [1, 2, 2]"
    by blast
  with demo_x_shape z o demo_attention_def show ?thesis by (intro conjI)
qed

text \<open>
  Claim C2 says that the weights \<open>A[i, j]\<close> applied to the values sum to one over \<open>j\<close> for
  every \<open>i\<close>, and the comment in the source asks for a row-wise softmax. The softmax is
  taken along dimension \<open>-2\<close>, which normalises over \<open>i\<close>: at the sequence \<open>[1, 0]\<close> the
  weights of row \<open>0\<close> sum to \<open>2 * e / (e + 1)\<close>, not to one, while column \<open>0\<close> sums to one.
\<close>

theorem SelfAttention_weight_rows_not_normalised:
  "\<exists>A V. SelfAttention_weights demo_attention demo_x = Inr (A, V)
      \<and> at3 A 0 0 0 + at3 A 0 0 1 = 2 * exp 1 / (exp 1 + 1)
      \<and> at3 A 0 0 0 + at3 A 0 0 1 \<noteq> 1
      \<and> at3 A 0 0 0 + at3 A 0 1 0 = 1"
proof -
  let ?A = "tabulate3 1 2 2 (attention_weight (\<lambda>co c k. if co = 0 then 1 else 0) (\<lambda>co c k. 1) demo_x 2)"
  have a: "at3 ?A 0 0 0 = exp 1 / (exp 1 + 1)" "at3 ?A 0 0 1 = exp 1 / (exp 1 + 1)"
    "at3 ?A 0 1 0 = 1 / (exp 1 + 1)"
    by (simp_all add: at3_tabulate3 demo_attention_weight)
  have p: "0 < exp (1::real) + 1" by (simp add: add_pos_pos)
  have s: "at3 ?A 0 0 0 + at3 ?A 0 0 1 = 2 * exp 1 / (exp 1 + 1)" using a by simp
  have n: "at3 ?A 0 0 0 + at3 ?A 0 0 1 \<noteq> 1"
  proof
    assume "at3 ?A 0 0 0 + at3 ?A 0 0 1 = 1"
    with s have "2 * exp (1::real) / (exp 1 + 1) = 1" by simp
    with p have "2 * exp (1::real) = exp 1 + 1" by (simp add: field_simps)
    then have "exp (1::real) = 1" by simp
    then show False by simp
  qed
  have "exp 1 / (exp 1 + 1) + 1 / (exp 1 + 1) = (1::real)"
    using p by (simp add: field_simps)
  then have c: "at3 ?A 0 0 0 + at3 ?A 0 1 0 = 1" by (simp only: a)
  show ?thesis
  proof (intro exI conjI)
    show "SelfAttention_weights demo_attention demo_x = Inr (?A, tabulate3 1 2 2 (projection (\<lambda>co c k. if co = 0 then 1 else 0) demo_x))"
      by (rule demo_weights)
  qed (rule s n c)+
qed




section \<open>Shapes through the networks\<close>

lemma conv1d_forward_shape:
  assumes "shape x = [N, cin, L]" "0 < k" "0 < s" "k \<le> L + 2 * p" "0 < cin" "0 < cout" "0 < L"
  shows "\<exists>y. conv1d_forward (Conv1d cin cout k s p w b) x = Inr y
           \<and> shape y = [N, cout, (L + 2 * p - k) div s + 1]"
  using assms by (simp add: conv1d_forward_def conv1d_batched_def Conv1d_def shape_tabulate3)

lemma conv1d_same_shape:
  assumes "shape x = [N, cin, L]" "0 < L" "odd ksize" "0 < cin" "0 < cout"
  shows "\<exists>y. conv1d_forward (Conv1d cin cout ksize 1 (ksize div 2) w b) x = Inr y
           \<and> shape y = [N, cout, L]"
proof -
  from assms(3) obtain m where m: "ksize = 2 * m + 1" by (auto elim: oddE)
  then have p: "ksize div 2 = m" by simp
  have "\<exists>y. conv1d_forward (Conv1d cin cout ksize 1 m w b) x = Inr y
           \<and> shape y = [N, cout, (L + 2 * m - ksize) div 1 + 1]"
    using assms(1,2,4,5) m by (intro conv1d_forward_shape) simp_all
  moreover have "(L + 2 * m - ksize) div 1 + 1 = L" using m assms(2) by simp
  ultimately show ?thesis using p by simp
qed

lemma conv1d_kernel1_shape:
  assumes "shape x = [N, cin, L]" "0 < L" "0 < cin" "0 < cout"
  shows "\<exists>y. conv1d_forward (Conv1d cin cout 1 1 0 w b) x = Inr y \<and> shape y = [N, cout, L]"
  using conv1d_same_shape[where ksize = 1 and w = w and b = b, OF assms(1,2) _ assms(3,4)] by simp

lemma shape_relu: "shape (relu x) = shape x"
  by (simp add: relu_def)

lemma conv_transpose1d_forward_shape:
  assumes "shape x = [N, cin, L]" "0 < k" "0 < s" "op < s" "0 < L"
    "2 * p < (L - 1) * s + (k - 1) + op + 1" "0 < cin"
  shows "\<exists>y. conv_transpose1d_forward (ConvTranspose1d cin cout k s p op w b) x = Inr y
           \<and> shape y = [N, cout, (L - 1) * s + (k - 1) + op + 1 - 2 * p]"
  using assms
  by (simp add: conv_transpose1d_forward_def conv_transpose1d_batched_def ConvTranspose1d_def
        shape_tabulate3)

lemma Sequential_forward_append:
  "Sequential_forward (ls @ ms) x = then_do (Sequential_forward ls x) (Sequential_forward ms)"
  by (induction ls arbitrary: x) (simp_all add: then_do_def split: sum.splits)

lemma RegressionFCN_loop_shape:
  assumes "0 < L" "odd ksize" "0 < num_channels"
  shows "shape x = [N, cin, L] \<Longrightarrow> 0 < cin \<Longrightarrow>
         \<exists>y. Sequential_forward (RegressionFCN_loop W num_channels ksize cin i n) x = Inr y
            \<and> shape y = [N, (if n = 0 then cin else num_channels), L]"
proof (induction n arbitrary: x cin i)
  case 0
  then show ?case by simp
next
  case (Suc n)
  from conv1d_same_shape[where w = "fst (W i)" and b = "Some (snd (W i))",
      OF Suc.prems(1) assms(1,2) Suc.prems(2) assms(3)]
  obtain y1 where y1: "conv1d_forward (Conv1d cin num_channels ksize 1 (ksize div 2)
        (fst (W i)) (Some (snd (W i)))) x = Inr y1" "shape y1 = [N, num_channels, L]" by blast
  have "shape (relu y1) = [N, num_channels, L]" using y1(2) by (simp add: shape_relu)
  from Suc.IH[OF this assms(3), of "Suc i"] obtain y where
    "Sequential_forward (RegressionFCN_loop W num_channels ksize num_channels (Suc i) n) (relu y1) = Inr y"
    "shape y = [N, num_channels, L]" by (auto split: if_splits)
  with y1(1) show ?case by (simp add: then_do_Inr)
qed

lemma RegressionFCN_forward_shape:
  assumes "shape x = [N, fst inshape, L]" "0 < L" "odd ksize" "0 < num_layers"
    "0 < fst inshape" "0 < num_channels"
  shows "\<exists>y. RegressionFCN_forward (RegressionFCN W inshape num_channels ksize num_layers) x = Inr y
           \<and> shape y = [N, fst inshape, L]"
proof -
  from RegressionFCN_loop_shape[where W = W and i = 0 and n = num_layers,
      OF assms(2,3,6,1,5)] assms(4)
  obtain y1 where y1:
    "Sequential_forward (RegressionFCN_loop W num_channels ksize (fst inshape) 0 num_layers) x = Inr y1"
    "shape y1 = [N, num_channels, L]" by auto
  from conv1d_kernel1_shape[where w = "fst (W num_layers)" and b = "Some (snd (W num_layers))",
      OF y1(2) assms(2,6,5)]
  obtain y where y: "conv1d_forward (Conv1d num_channels (fst inshape) 1 1 0
        (fst (W num_layers)) (Some (snd (W num_layers)))) y1 = Inr y" "shape y = [N, fst inshape, L]"
    by blast
  show ?thesis
    using y1(1) y
    by (simp add: RegressionFCN_forward_def RegressionFCN_def Sequential_forward_append then_do_Inr)
qed

lemma SelfAttention_forward_shape:
  assumes "shape x = [N, cin, L]" "0 < L" "0 < cin" "0 < ckey"
  shows "\<exists>y. SelfAttention_forward (SelfAttention cin ckey ckey wQ wK wV) x = Inr y
           \<and> shape y = [N, ckey, L]"
  by (simp add: SelfAttention_forward_eq[OF assms] shape_tabulate3)

lemma CustomAttn_forward_shape:
  assumes "shape x = [N, fst inshape, L]" "0 < L" "odd ksize" "0 < fst inshape" "0 < num_channels"
  shows "\<exists>y. CustomAttn_forward (CustomAttn W wQ wK wV inshape num_channels ksize) x = Inr y
           \<and> shape y = [N, fst inshape, L]"
proof -
  from conv1d_same_shape[where w = "fst (W 0)" and b = "Some (snd (W 0))", OF assms]
  obtain y1 where y1: "conv1d_forward (Conv1d (fst inshape) num_channels ksize 1 (ksize div 2)
        (fst (W 0)) (Some (snd (W 0)))) x = Inr y1" "shape y1 = [N, num_channels, L]" by blast
  have r1: "shape (relu y1) = [N, num_channels, L]" using y1(2) by (simp add: shape_relu)
  from SelfAttention_forward_shape[where wQ = wQ and wK = wK and wV = wV,
      OF r1 assms(2,5,5)]
  obtain y2 where y2: "SelfAttention_forward
        (SelfAttention num_channels num_channels num_channels wQ wK wV) (relu y1) = Inr y2"
    "shape y2 = [N, num_channels, L]" by blast
  have r2: "shape (relu y2) = [N, num_channels, L]" using y2(2) by (simp add: shape_relu)
  from conv1d_same_shape[where w = "fst (W 1)" and b = "Some (snd (W 1))",
      OF r2 assms(2,3,5,5)]
  obtain y3 where y3: "conv1d_forward (Conv1d num_channels num_channels ksize 1 (ksize div 2)
        (fst (W 1)) (Some (snd (W 1)))) (relu y2) = Inr y3" "shape y3 = [N, num_channels, L]" by blast
  from conv1d_kernel1_shape[where w = "fst (W 2)" and b = "Some (snd (W 2))",
      OF y3(2) assms(2,5,4)]
  obtain y where y: "conv1d_forward (Conv1d num_channels (fst inshape) 1 1 0
        (fst (W 2)) (Some (snd (W 2)))) y3 = Inr y" "shape y = [N, fst inshape, L]" by blast
  show ?thesis
    using y1(1) y2(1) y3(1) y
    by (simp add: CustomAttn_forward_def CustomAttn_def then_do_Inr)
qed

lemma MyEncoder_layers_default:
  "layers (MyEncoder W 3 nchannels) =
     [L_Conv1d (Conv1d 1 nchannels 5 2 2 (fst (W 0)) (Some (snd (W 0)))), L_ReLU,
      L_Conv1d (Conv1d nchannels nchannels 5 2 2 (fst (W 1)) (Some (snd (W 1)))), L_ReLU,
      L_Conv1d (Conv1d nchannels 1 3 1 1 (fst (W 2)) (Some (snd (W 2)))), L_Flatten]"
  by (simp add: MyEncoder_def numeral_2_eq_2)

lemma MyDecoder_layers_default:
  "layers (MyDecoder W 3 nchannels) =
     [L_ConvTranspose1d (ConvTranspose1d 1 nchannels 5 2 2 1 (fst (W 0)) (Some (snd (W 0)))), L_ReLU,
      L_ConvTranspose1d (ConvTranspose1d nchannels nchannels 5 2 2 1 (fst (W 1)) (Some (snd (W 1)))),
      L_ReLU,
      L_Conv1d (Conv1d nchannels 1 3 1 1 (fst (W 2)) (Some (snd (W 2))))]"
  by (simp add: MyDecoder_def numeral_2_eq_2)

lemma encoder_layers_shape:
  assumes "shape x = [B, 1, 40]" "0 < nchannels"
  shows "\<exists>h. Sequential_forward (layers (MyEncoder W 3 nchannels)) x = Inr h \<and> shape h = [B, 10]"
proof -
  from conv1d_forward_shape[OF assms(1), of 5 2 2 nchannels "fst (W 0)" "Some (snd (W 0))"] assms(2)
  obtain y1 where y1: "conv1d_forward (Conv1d 1 nchannels 5 2 2 (fst (W 0)) (Some (snd (W 0)))) x = Inr y1"
    "shape y1 = [B, nchannels, 20]" by auto
  have r1: "shape (relu y1) = [B, nchannels, 20]" using y1(2) by (simp add: shape_relu)
  from conv1d_forward_shape[OF r1, of 5 2 2 nchannels "fst (W 1)" "Some (snd (W 1))"] assms(2)
  obtain y2 where y2: "conv1d_forward (Conv1d nchannels nchannels 5 2 2 (fst (W 1)) (Some (snd (W 1))))
      (relu y1) = Inr y2" "shape y2 = [B, nchannels, 10]" by auto
  have r2: "shape (relu y2) = [B, nchannels, 10]" using y2(2) by (simp add: shape_relu)
  from conv1d_forward_shape[OF r2, of 3 1 1 1 "fst (W 2)" "Some (snd (W 2))"] assms(2)
  obtain y3 where y3: "conv1d_forward (Conv1d nchannels 1 3 1 1 (fst (W 2)) (Some (snd (W 2))))
      (relu y2) = Inr y3" "shape y3 = [B, 1, 10]" by auto
  have f: "flatten y3 = Inr (y3\<lparr>shape := [B, 10]\<rparr>)" using y3(2) by (simp add: flatten_def)
  show ?thesis
    using y1(1) y2(1) y3(1) f by (simp add: MyEncoder_layers_default then_do_Inr)
qed

lemma decoder_layers_shape:
  assumes "shape h = [B, 1, 10]" "0 < nchannels"
  shows "\<exists>y. Sequential_forward (layers (MyDecoder W 3 nchannels)) h = Inr y \<and> shape y = [B, 1, 40]"
proof -
  from conv_transpose1d_forward_shape[OF assms(1), of 5 2 1 2 nchannels "fst (W 0)" "Some (snd (W 0))"]
  obtain y1 where y1: "conv_transpose1d_forward
      (ConvTranspose1d 1 nchannels 5 2 2 1 (fst (W 0)) (Some (snd (W 0)))) h = Inr y1"
    "shape y1 = [B, nchannels, 20]" by auto
  have r1: "shape (relu y1) = [B, nchannels, 20]" using y1(2) by (simp add: shape_relu)
  from conv_transpose1d_forward_shape[OF r1, of 5 2 1 2 nchannels "fst (W 1)" "Some (snd (W 1))"]
    assms(2)
  obtain y2 where y2: "conv_transpose1d_forward
      (ConvTranspose1d nchannels nchannels 5 2 2 1 (fst (W 1)) (Some (snd (W 1)))) (relu y1) = Inr y2"
    "shape y2 = [B, nchannels, 40]" by auto
  have r2: "shape (relu y2) = [B, nchannels, 40]" using y2(2) by (simp add: shape_relu)
  from conv1d_forward_shape[OF r2, of 3 1 1 1 "fst (W 2)" "Some (snd (W 2))"] assms(2)
  obtain y3 where y3: "conv1d_forward (Conv1d nchannels 1 3 1 1 (fst (W 2)) (Some (snd (W 2))))
      (relu y2) = Inr y3" "shape y3 = [B, 1, 40]" by auto
  show ?thesis
    using y1(1) y2(1) y3 by (simp add: MyDecoder_layers_default then_do_Inr)
qed

lemma unsqueeze_2d:
  assumes "shape x = [B, L]"
  shows "unsqueeze x 1 = Inr (x\<lparr>shape := [B, 1, L]\<rparr>)"
  using assms by (simp add: unsqueeze_def)

lemma MyEncoder_forward_shape:
  assumes "shape x = [B, 40] \<or> shape x = [B, 1, 40]" "0 < nchannels"
  shows "\<exists>h. MyEncoder_forward (MyEncoder W 3 nchannels) x = Inr h \<and> shape h = [B, 10]"
  using assms(1)
proof
  assume s: "shape x = [B, 40]"
  have "shape (x\<lparr>shape := [B, 1, 40]\<rparr>) = [B, 1, 40]" by simp
  from encoder_layers_shape[OF this assms(2), of W] unsqueeze_2d[OF s] s
  show ?thesis by (simp add: MyEncoder_forward_def then_do_Inr)
next
  assume s: "shape x = [B, 1, 40]"
  from encoder_layers_shape[OF s assms(2), of W] s
  show ?thesis by (simp add: MyEncoder_forward_def)
qed

lemma MyDecoder_forward_shape:
  assumes "shape h = [B, 10]" "0 < nchannels"
  shows "\<exists>y. MyDecoder_forward (MyDecoder W 3 nchannels) h = Inr y \<and> shape y = [B, 1, 40]"
proof -
  have "shape (h\<lparr>shape := [B, 1, 10]\<rparr>) = [B, 1, 10]" by simp
  from decoder_layers_shape[OF this assms(2), of W] unsqueeze_2d[OF assms(1)] assms(1)
  show ?thesis by (simp add: MyDecoder_forward_def then_do_Inr)
qed

lemma MyAutoencoder_forward_shape:
  assumes "shape x = [B, 40] \<or> shape x = [B, 1, 40]" "0 < nchannels"
  shows "\<exists>y. MyAutoencoder_forward (MyAutoencoder W_enc W_dec 3 nchannels) x = Inr y
           \<and> shape y = [B, 1, 40]"
proof -
  from MyEncoder_forward_shape[OF assms, of W_enc]
  obtain h where h: "MyEncoder_forward (MyEncoder W_enc 3 nchannels) x = Inr h" "shape h = [B, 10]"
    by blast
  from MyDecoder_forward_shape[OF h(2) assms(2), of W_dec]
  obtain y where "MyDecoder_forward (MyDecoder W_dec 3 nchannels) h = Inr y" "shape y = [B, 1, 40]"
    by blast
  with h(1) show ?thesis
    by (simp add: MyAutoencoder_forward_def MyAutoencoder_def then_do_Inr)
qed

lemma conv1d_even_shape:
  assumes "shape x = [N, cin, L]" "even ksize" "0 < ksize" "0 < L" "0 < cin" "0 < cout"
  shows "\<exists>y. conv1d_forward (Conv1d cin cout ksize 1 (ksize div 2) w b) x = Inr y
           \<and> shape y = [N, cout, L + 1]"
proof -
  from assms(2) obtain m where m: "ksize = 2 * m" by (auto elim: evenE)
  then have p: "ksize div 2 = m" by simp
  have "\<exists>y. conv1d_forward (Conv1d cin cout ksize 1 m w b) x = Inr y
           \<and> shape y = [N, cout, (L + 2 * m - ksize) div 1 + 1]"
    using assms(1,3,4,5,6) m by (intro conv1d_forward_shape) simp_all
  moreover have "(L + 2 * m - ksize) div 1 + 1 = L + 1" using m by simp
  ultimately show ?thesis using p by simp
qed

lemma RegressionFCN_loop_even_shape:
  assumes "even ksize" "0 < ksize" "0 < num_channels"
  shows "shape x = [N, cin, L] \<Longrightarrow> 0 < L \<Longrightarrow> 0 < cin \<Longrightarrow>
         \<exists>y. Sequential_forward (RegressionFCN_loop W num_channels ksize cin i n) x = Inr y
            \<and> shape y = [N, (if n = 0 then cin else num_channels), L + n]"
proof (induction n arbitrary: x cin i L)
  case 0
  then show ?case by simp
next
  case (Suc n)
  from conv1d_even_shape[where w = "fst (W i)" and b = "Some (snd (W i))",
      OF Suc.prems(1) assms(1,2) Suc.prems(2,3) assms(3)]
  obtain y1 where y1: "conv1d_forward (Conv1d cin num_channels ksize 1 (ksize div 2)
        (fst (W i)) (Some (snd (W i)))) x = Inr y1" "shape y1 = [N, num_channels, L + 1]" by blast
  have "shape (relu y1) = [N, num_channels, L + 1]" using y1(2) by (simp add: shape_relu)
  moreover have "0 < L + 1" by simp
  ultimately obtain y where
    "Sequential_forward (RegressionFCN_loop W num_channels ksize num_channels (Suc i) n) (relu y1) = Inr y"
    "shape y = [N, num_channels, L + 1 + n]"
    using Suc.IH[of "relu y1" num_channels "L + 1" "Suc i"] assms(3) by (auto split: if_splits)
  with y1(1) show ?case by (simp add: then_do_Inr)
qed

lemma RegressionFCN_forward_even_shape:
  assumes "shape x = [N, fst inshape, L]" "even ksize" "0 < ksize" "0 < num_layers"
    "0 < L" "0 < fst inshape" "0 < num_channels"
  shows "\<exists>y. RegressionFCN_forward (RegressionFCN W inshape num_channels ksize num_layers) x = Inr y
           \<and> shape y = [N, fst inshape, L + num_layers]"
proof -
  from RegressionFCN_loop_even_shape[where W = W and i = 0 and n = num_layers,
      OF assms(2,3,7,1,5,6)] assms(4)
  obtain y1 where y1:
    "Sequential_forward (RegressionFCN_loop W num_channels ksize (fst inshape) 0 num_layers) x = Inr y1"
    "shape y1 = [N, num_channels, L + num_layers]" by auto
  have "0 < L + num_layers" using assms(4) by simp
  from conv1d_kernel1_shape[where w = "fst (W num_layers)" and b = "Some (snd (W num_layers))",
      OF y1(2) this assms(7,6)]
  obtain y where y: "conv1d_forward (Conv1d num_channels (fst inshape) 1 1 0
        (fst (W num_layers)) (Some (snd (W num_layers)))) y1 = Inr y"
    "shape y = [N, fst inshape, L + num_layers]"
    by blast
  show ?thesis
    using y1(1) y
    by (simp add: RegressionFCN_forward_def RegressionFCN_def Sequential_forward_append then_do_Inr)
qed

lemma conv1d_empty_sequence:
  assumes "shape x = [N, cin, 0]" "odd ksize"
  shows "conv1d_forward (Conv1d cin cout ksize 1 (ksize div 2) w b) x = Inl RuntimeError"
proof -
  from assms(2) obtain m where m: "ksize = 2 * m + 1" by (auto elim: oddE)
  then have "ksize div 2 = m" by simp
  then show ?thesis using assms(1) m by (simp add: conv1d_forward_def conv1d_batched_def Conv1d_def)
qed

lemma RegressionFCN_forward_empty_sequence:
  assumes "shape x = [N, fst inshape, 0]" "odd ksize" "0 < num_layers"
  shows "RegressionFCN_forward (RegressionFCN W inshape num_channels ksize num_layers) x
           = Inl RuntimeError"
proof -
  from assms(3) obtain n where n: "num_layers = Suc n" by (cases num_layers) simp_all
  show ?thesis
    using conv1d_empty_sequence[OF assms(1,2)]
    by (simp add: RegressionFCN_forward_def RegressionFCN_def n then_do_Inl)
qed

lemma CustomAttn_forward_empty_sequence:
  assumes "shape x = [N, fst inshape, 0]" "odd ksize"
  shows "CustomAttn_forward (CustomAttn W wQ wK wV inshape num_channels ksize) x = Inl RuntimeError"
  using conv1d_empty_sequence[OF assms(1,2)]
  by (simp add: CustomAttn_forward_def CustomAttn_def then_do_Inl)

lemma RegressionFCN_forward_no_layers:
  assumes "shape x = [N, fst inshape, L]" "num_channels \<noteq> fst inshape"
  shows "RegressionFCN_forward (RegressionFCN W inshape num_channels ksize 0) x = Inl RuntimeError"
  using assms
  by (simp add: RegressionFCN_forward_def RegressionFCN_def then_do_def conv1d_forward_def
        conv1d_batched_def Conv1d_def)

lemma RegressionFCN_forward_shape_general:
  assumes "shape x = [N, fst inshape, L]" "0 < L" "odd ksize"
    "num_layers = 0 \<longrightarrow> num_channels = fst inshape" "0 < fst inshape" "0 < num_channels"
  shows "\<exists>y. RegressionFCN_forward (RegressionFCN W inshape num_channels ksize num_layers) x = Inr y
           \<and> shape y = [N, fst inshape, L]"
proof (cases "num_layers = 0")
  case False
  then have "0 < num_layers" by simp
  from RegressionFCN_forward_shape[OF assms(1,2,3) this assms(5,6)] show ?thesis .
next
  case True
  with assms(4) have c: "num_channels = fst inshape" by simp
  from conv1d_kernel1_shape[where w = "fst (W 0)" and b = "Some (snd (W 0))",
      OF assms(1,2,5,5)]
  obtain y where "conv1d_forward (Conv1d (fst inshape) (fst inshape) 1 1 0
      (fst (W 0)) (Some (snd (W 0)))) x = Inr y" "shape y = [N, fst inshape, L]" by blast
  then show ?thesis
    by (simp add: RegressionFCN_forward_def RegressionFCN_def True c then_do_Inr)
qed

lemma conv1d_halving_shape:
  assumes "shape x = [N, cin, L]" "0 < L" "0 < cin" "0 < cout"
  shows "\<exists>y. conv1d_forward (Conv1d cin cout 5 2 2 w b) x = Inr y
           \<and> shape y = [N, cout, (L - 1) div 2 + 1]"
proof -
  have "\<exists>y. conv1d_forward (Conv1d cin cout 5 2 2 w b) x = Inr y
           \<and> shape y = [N, cout, (L + 2 * 2 - 5) div 2 + 1]"
    using assms by (intro conv1d_forward_shape) simp_all
  moreover have "L + 2 * 2 - 5 = L - 1" by simp
  ultimately show ?thesis by simp
qed

lemma conv_transpose1d_doubling_shape:
  assumes "shape x = [N, cin, L]" "0 < L" "0 < cin"
  shows "\<exists>y. conv_transpose1d_forward (ConvTranspose1d cin cout 5 2 2 1 w b) x = Inr y
           \<and> shape y = [N, cout, 2 * L]"
proof -
  have "\<exists>y. conv_transpose1d_forward (ConvTranspose1d cin cout 5 2 2 1 w b) x = Inr y
           \<and> shape y = [N, cout, (L - 1) * 2 + (5 - 1) + 1 + 1 - 2 * 2]"
    using assms by (intro conv_transpose1d_forward_shape) simp_all
  moreover have "(L - 1) * 2 + (5 - 1) + 1 + 1 - 2 * 2 = 2 * L" using assms(2) by simp
  ultimately show ?thesis by simp
qed

lemma halve_even:
  assumes "0 < (k::nat)"
  shows "(2 * k - 1) div 2 + 1 = k"
  using assms by presburger

lemma MyEncoder_loop_shape:
  assumes "0 < nchannels"
  shows "shape x = [N, (if i = 0 then 1 else nchannels), L] \<Longrightarrow> 0 < L \<Longrightarrow> 2 ^ n dvd L \<Longrightarrow>
   \<exists>y. Sequential_forward (MyEncoder_loop W nchannels i n) x = Inr y
      \<and> shape y = [N, (if n = 0 then (if i = 0 then 1 else nchannels) else nchannels), L div 2 ^ n]"
proof (induction n arbitrary: x i L)
  case 0
  then show ?case by simp
next
  case (Suc n)
  from Suc.prems(3) obtain m where m: "L = 2 * (2 ^ n * m)" by (auto elim: dvdE)
  with Suc.prems(2) have mpos: "0 < 2 ^ n * m" by simp
  have half: "(L - 1) div 2 + 1 = 2 ^ n * m"
    unfolding m using mpos by (rule halve_even)
  have ci: "0 < (if i = 0 then 1 else nchannels)" using assms by simp
  from conv1d_halving_shape[where w = "fst (W i)" and b = "Some (snd (W i))",
      OF Suc.prems(1,2) ci assms]
  obtain y1 where y1: "conv1d_forward (Conv1d (if i = 0 then 1 else nchannels) nchannels 5 2 2
        (fst (W i)) (Some (snd (W i)))) x = Inr y1" "shape y1 = [N, nchannels, 2 ^ n * m]"
    using half by auto
  have r: "shape (relu y1) = [N, (if Suc i = 0 then 1 else nchannels), 2 ^ n * m]"
    using y1(2) by (simp add: shape_relu)
  have d: "(2::nat) ^ n dvd 2 ^ n * m" by simp
  from Suc.IH[OF r mpos d] obtain y where y:
    "Sequential_forward (MyEncoder_loop W nchannels (Suc i) n) (relu y1) = Inr y"
    "shape y = [N, nchannels, 2 ^ n * m div 2 ^ n]" by (auto split: if_splits)
  have "L div 2 ^ Suc n = 2 ^ n * m div 2 ^ n" using m by simp
  with y y1(1) show ?case by (simp add: then_do_Inr)
qed

lemma MyDecoder_loop_shape:
  assumes "0 < nchannels"
  shows "shape x = [N, (if i = 0 then 1 else nchannels), L] \<Longrightarrow> 0 < L \<Longrightarrow>
   \<exists>y. Sequential_forward (MyDecoder_loop W nchannels i n) x = Inr y
      \<and> shape y = [N, (if n = 0 then (if i = 0 then 1 else nchannels) else nchannels), 2 ^ n * L]"
proof (induction n arbitrary: x i L)
  case 0
  then show ?case by simp
next
  case (Suc n)
  have ci: "0 < (if i = 0 then 1 else nchannels)" using assms by simp
  from conv_transpose1d_doubling_shape[where cout = nchannels and w = "fst (W i)"
      and b = "Some (snd (W i))", OF Suc.prems ci]
  obtain y1 where y1: "conv_transpose1d_forward
        (ConvTranspose1d (if i = 0 then 1 else nchannels) nchannels 5 2 2 1
        (fst (W i)) (Some (snd (W i)))) x = Inr y1" "shape y1 = [N, nchannels, 2 * L]"
    by auto
  have r: "shape (relu y1) = [N, (if Suc i = 0 then 1 else nchannels), 2 * L]"
    using y1(2) by (simp add: shape_relu)
  have p: "0 < 2 * L" using Suc.prems(2) by simp
  from Suc.IH[OF r p] obtain y where y:
    "Sequential_forward (MyDecoder_loop W nchannels (Suc i) n) (relu y1) = Inr y"
    "shape y = [N, nchannels, 2 ^ n * (2 * L)]" by (auto split: if_splits)
  with y1(1) show ?case by (simp add: then_do_Inr)
qed

lemma conv1d_kernel3_shape:
  assumes "shape x = [N, cin, L]" "0 < L" "0 < cin" "0 < cout"
  shows "\<exists>y. conv1d_forward (Conv1d cin cout 3 1 1 w b) x = Inr y \<and> shape y = [N, cout, L]"
  using conv1d_same_shape[where ksize = 3 and w = w and b = b, OF assms(1,2) _ assms(3,4)] by simp

lemma encoder_layers_shape_general:
  assumes "shape x = [N, 1, L]" "0 < L" "2 ^ (nlayers - 1) dvd L" "2 \<le> nlayers" "0 < nchannels"
  shows "\<exists>h. Sequential_forward (layers (MyEncoder W nlayers nchannels)) x = Inr h
           \<and> shape h = [N, L div 2 ^ (nlayers - 1)]"
proof -
  have n: "nlayers - 1 \<noteq> 0" using assms(4) by simp
  have s: "shape x = [N, (if (0::nat) = 0 then 1 else nchannels), L]" using assms(1) by simp
  from MyEncoder_loop_shape[OF assms(5) s assms(2,3), of W] n
  obtain y1 where y1: "Sequential_forward (MyEncoder_loop W nchannels 0 (nlayers - 1)) x = Inr y1"
    "shape y1 = [N, nchannels, L div 2 ^ (nlayers - 1)]" by auto
  have p: "0 < L div 2 ^ (nlayers - 1)"
    using assms(2,3) by (auto elim!: dvdE)
  have one: "(0::nat) < 1" by simp
  from conv1d_kernel3_shape[where w = "fst (W (nlayers - 1))"
      and b = "Some (snd (W (nlayers - 1)))", OF y1(2) p assms(5) one]
  obtain y2 where y2: "conv1d_forward (Conv1d nchannels 1 3 1 1
        (fst (W (nlayers - 1))) (Some (snd (W (nlayers - 1))))) y1 = Inr y2"
    "shape y2 = [N, 1, L div 2 ^ (nlayers - 1)]" by blast
  have f: "flatten y2 = Inr (y2\<lparr>shape := [N, L div 2 ^ (nlayers - 1)]\<rparr>)"
    using y2(2) by (simp add: flatten_def)
  show ?thesis
    using y1(1) y2(1) f
    by (simp add: MyEncoder_def Sequential_forward_append then_do_Inr)
qed

lemma decoder_layers_shape_general:
  assumes "shape h = [N, 1, L]" "0 < L" "2 \<le> nlayers" "0 < nchannels"
  shows "\<exists>y. Sequential_forward (layers (MyDecoder W nlayers nchannels)) h = Inr y
           \<and> shape y = [N, 1, 2 ^ (nlayers - 1) * L]"
proof -
  have n: "nlayers - 1 \<noteq> 0" using assms(3) by simp
  have s: "shape h = [N, (if (0::nat) = 0 then 1 else nchannels), L]" using assms(1) by simp
  from MyDecoder_loop_shape[OF assms(4) s assms(2), of W "nlayers - 1"] n
  obtain y1 where y1: "Sequential_forward (MyDecoder_loop W nchannels 0 (nlayers - 1)) h = Inr y1"
    "shape y1 = [N, nchannels, 2 ^ (nlayers - 1) * L]" by auto
  have p: "0 < 2 ^ (nlayers - 1) * L" using assms(2) by simp
  have one: "(0::nat) < 1" by simp
  from conv1d_kernel3_shape[where w = "fst (W (nlayers - 1))"
      and b = "Some (snd (W (nlayers - 1)))", OF y1(2) p assms(4) one]
  obtain y2 where y2: "conv1d_forward (Conv1d nchannels 1 3 1 1
        (fst (W (nlayers - 1))) (Some (snd (W (nlayers - 1))))) y1 = Inr y2"
    "shape y2 = [N, 1, 2 ^ (nlayers - 1) * L]" by blast
  show ?thesis
    using y1(1) y2
    by (simp add: MyDecoder_def Sequential_forward_append then_do_Inr)
qed

lemma MyAutoencoder_forward_shape_general:
  assumes "shape x = [N, L] \<or> shape x = [N, 1, L]" "0 < L" "2 ^ (nlayers - 1) dvd L" "2 \<le> nlayers"
    "0 < nchannels"
  shows "\<exists>y. MyAutoencoder_forward (MyAutoencoder W_enc W_dec nlayers nchannels) x = Inr y
           \<and> shape y = [N, 1, L]"
proof -
  have "\<exists>h. MyEncoder_forward (MyEncoder W_enc nlayers nchannels) x = Inr h
           \<and> shape h = [N, L div 2 ^ (nlayers - 1)]"
    using assms(1)
  proof
    assume s: "shape x = [N, L]"
    have "shape (x\<lparr>shape := [N, 1, L]\<rparr>) = [N, 1, L]" by simp
    from encoder_layers_shape_general[OF this assms(2,3,4,5), of W_enc] unsqueeze_2d[OF s] s
    show ?thesis by (simp add: MyEncoder_forward_def then_do_Inr)
  next
    assume s: "shape x = [N, 1, L]"
    from encoder_layers_shape_general[OF s assms(2,3,4,5), of W_enc] s
    show ?thesis by (simp add: MyEncoder_forward_def)
  qed
  then obtain h where h: "MyEncoder_forward (MyEncoder W_enc nlayers nchannels) x = Inr h"
    "shape h = [N, L div 2 ^ (nlayers - 1)]" by blast
  have p: "0 < L div 2 ^ (nlayers - 1)"
    using assms(2,3) by (auto elim!: dvdE)
  have "shape (h\<lparr>shape := [N, 1, L div 2 ^ (nlayers - 1)]\<rparr>) = [N, 1, L div 2 ^ (nlayers - 1)]"
    by simp
  from decoder_layers_shape_general[OF this p assms(4,5), of W_dec]
  obtain y where y: "Sequential_forward (layers (MyDecoder W_dec nlayers nchannels))
      (h\<lparr>shape := [N, 1, L div 2 ^ (nlayers - 1)]\<rparr>) = Inr y"
    "shape y = [N, 1, 2 ^ (nlayers - 1) * (L div 2 ^ (nlayers - 1))]" by blast
  have "2 ^ (nlayers - 1) * (L div 2 ^ (nlayers - 1)) = L" using assms(3) by simp
  with y unsqueeze_2d[OF h(2)] h show ?thesis
    by (simp add: MyAutoencoder_forward_def MyAutoencoder_def MyDecoder_forward_def then_do_Inr)
qed

lemma MyEncoder_loop_width:
  assumes "0 < nchannels"
  shows "shape x = [N, (if i = 0 then 1 else nchannels), L] \<Longrightarrow> 0 < L \<Longrightarrow>
   \<exists>y. Sequential_forward (MyEncoder_loop W nchannels i n) x = Inr y
      \<and> shape y = [N, (if n = 0 then (if i = 0 then 1 else nchannels) else nchannels),
                    ((\<lambda>l. (l - 1) div 2 + 1) ^^ n) L]"
proof (induction n arbitrary: x i L)
  case 0
  then show ?case by simp
next
  case (Suc n)
  let ?h = "\<lambda>l::nat. (l - 1) div 2 + 1"
  have ci: "0 < (if i = 0 then 1 else nchannels)" using assms by simp
  from conv1d_halving_shape[where w = "fst (W i)" and b = "Some (snd (W i))",
      OF Suc.prems(1,2) ci assms]
  obtain y1 where y1: "conv1d_forward (Conv1d (if i = 0 then 1 else nchannels) nchannels 5 2 2
        (fst (W i)) (Some (snd (W i)))) x = Inr y1" "shape y1 = [N, nchannels, ?h L]"
    by auto
  have r: "shape (relu y1) = [N, (if Suc i = 0 then 1 else nchannels), ?h L]"
    using y1(2) by (simp add: shape_relu)
  have p: "0 < ?h L" by simp
  from Suc.IH[OF r p] obtain y where y:
    "Sequential_forward (MyEncoder_loop W nchannels (Suc i) n) (relu y1) = Inr y"
    "shape y = [N, nchannels, (?h ^^ n) (?h L)]" by (auto split: if_splits)
  have "(?h ^^ Suc n) L = (?h ^^ n) (?h L)" by (simp only: funpow_Suc_right o_apply)
  with y y1(1) show ?case by (simp add: then_do_Inr del: funpow.simps)
qed

lemma funpow_4: "(f ^^ 4) x = f (f (f (f x)))"
  by (simp add: eval_nat_numeral)

lemma MyAutoencoder_five_layers:
  assumes "shape x = [N, 1, 40]" "0 < nchannels"
  shows "\<exists>y. MyAutoencoder_forward (MyAutoencoder W_enc W_dec 5 nchannels) x = Inr y
           \<and> shape y = [N, 1, 48]"
proof -
  let ?h = "\<lambda>l::nat. (l - 1) div 2 + 1"
  have w: "(?h ^^ 4) 40 = 3" by (simp add: funpow_4)
  have s: "shape x = [N, (if (0::nat) = 0 then 1 else nchannels), 40]" using assms by simp
  from MyEncoder_loop_width[OF assms(2) s, of W_enc 4] w
  obtain y1 where y1: "Sequential_forward (MyEncoder_loop W_enc nchannels 0 4) x = Inr y1"
    "shape y1 = [N, nchannels, 3]" by auto
  from conv1d_kernel3_shape[OF y1(2), of 1 "fst (W_enc 4)" "Some (snd (W_enc 4))"] assms(2)
  obtain y2 where y2: "conv1d_forward (Conv1d nchannels 1 3 1 1
        (fst (W_enc 4)) (Some (snd (W_enc 4)))) y1 = Inr y2" "shape y2 = [N, 1, 3]" by auto
  have f: "flatten y2 = Inr (y2\<lparr>shape := [N, 3]\<rparr>)" using y2(2) by (simp add: flatten_def)
  have e: "MyEncoder_forward (MyEncoder W_enc 5 nchannels) x = Inr (y2\<lparr>shape := [N, 3]\<rparr>)"
    using y1(1) y2(1) f assms
    by (simp add: MyEncoder_forward_def MyEncoder_def Sequential_forward_append then_do_Inr)
  have "shape (y2\<lparr>shape := [N, 1, 3]\<rparr>) = [N, 1, 3]" by simp
  from decoder_layers_shape_general[OF this, of 5 nchannels W_dec] assms(2)
  obtain y where y: "Sequential_forward (layers (MyDecoder W_dec 5 nchannels))
      (y2\<lparr>shape := [N, 1, 3]\<rparr>) = Inr y" "shape y = [N, 1, 48]" by auto
  have u: "unsqueeze (y2\<lparr>shape := [N, 3]\<rparr>) 1 = Inr (y2\<lparr>shape := [N, 1, 3]\<rparr>)"
    by (simp add: unsqueeze_def)
  show ?thesis
    using e y u
    by (simp add: MyAutoencoder_forward_def MyAutoencoder_def MyDecoder_forward_def then_do_Inr)
qed

lemma MyAutoencoder_one_layer:
  assumes "shape x = [N, 1, L]" "nchannels \<noteq> 1"
  shows "MyAutoencoder_forward (MyAutoencoder W_enc W_dec 1 nchannels) x = Inl RuntimeError"
  using assms
  by (simp add: MyAutoencoder_forward_def MyAutoencoder_def MyEncoder_forward_def MyEncoder_def
        then_do_def conv1d_forward_def conv1d_batched_def Conv1d_def)

text \<open>
  Claim C4 says that \<^verbatim>\<open>RegressionFCN.forward\<close> and \<^verbatim>\<open>CustomAttn.forward\<close> return
  a tensor of the shape of their input, for every input of shape \<open>(batch, C, L)\<close> with
  \<open>C\<close> the configured \<^verbatim>\<open>inshape[0]\<close>. The padding \<^verbatim>\<open>ksize // 2\<close> keeps the length
  for an odd kernel size only: with \<^verbatim>\<open>ksize=4\<close> each of the four convolutions adds one
  position, and a batch of shape \<open>(64, 1, 64)\<close> comes out with shape \<open>(64, 1, 68)\<close>.
  Moreover the first convolution raises on a sequence of length zero, and with
  \<^verbatim>\<open>num_layers=0\<close> the last convolution receives \<open>C\<close> channels where it expects
  \<^verbatim>\<open>num_channels\<close>.
\<close>

theorem fcn_shape_changes_for_even_kernel:
  "(\<exists>y. RegressionFCN_forward (RegressionFCN zero_init (1, 64) 64 4 4) (zeros [64, 1, 64]) = Inr y
       \<and> shape y = [64, 1, 68] \<and> shape y \<noteq> shape (zeros [64, 1, 64]))
   \<and> RegressionFCN_forward (RegressionFCN zero_init (1, 64) 64 5 4) (zeros [64, 1, 0])
       = Inl RuntimeError
   \<and> CustomAttn_forward
         (CustomAttn zero_init (\<lambda>co c k. 0) (\<lambda>co c k. 0) (\<lambda>co c k. 0) (1, 64) 64 5)
         (zeros [64, 1, 0])
       = Inl RuntimeError
   \<and> RegressionFCN_forward (RegressionFCN zero_init (1, 64) 64 5 0) (zeros [64, 1, 64])
       = Inl RuntimeError"
proof (intro conjI)
  have s: "shape (zeros [64, 1, 64]) = [64, fst (1::nat, 64::nat), 64]"
    by (simp add: shape_zeros)
  from RegressionFCN_forward_even_shape[where W = zero_init and ksize = 4 and num_layers = 4
      and num_channels = 64, OF s]
  show "\<exists>y. RegressionFCN_forward (RegressionFCN zero_init (1, 64) 64 4 4) (zeros [64, 1, 64]) = Inr y
       \<and> shape y = [64, 1, 68] \<and> shape y \<noteq> shape (zeros [64, 1, 64])"
    by (auto simp: shape_zeros)
  have e: "shape (zeros [64, 1, 0]) = [64, fst (1::nat, 64::nat), 0]"
    by (simp add: shape_zeros)
  show "RegressionFCN_forward (RegressionFCN zero_init (1, 64) 64 5 4) (zeros [64, 1, 0])
       = Inl RuntimeError"
    by (rule RegressionFCN_forward_empty_sequence[OF e]) simp_all
  show "CustomAttn_forward
         (CustomAttn zero_init (\<lambda>co c k. 0) (\<lambda>co c k. 0) (\<lambda>co c k. 0) (1, 64) 64 5)
         (zeros [64, 1, 0])
       = Inl RuntimeError"
    by (rule CustomAttn_forward_empty_sequence[OF e]) simp
  show "RegressionFCN_forward (RegressionFCN zero_init (1, 64) 64 5 0) (zeros [64, 1, 64])
       = Inl RuntimeError"
    by (rule RegressionFCN_forward_no_layers[OF s]) simp
qed

text \<open>
  Claim C4, amended: for every input \<open>x\<close> of shape \<open>(batch, C, L)\<close> with \<open>L \<ge> 1\<close> and
  \<open>C \<ge> 1\<close> the configured \<^verbatim>\<open>inshape[0]\<close>, every odd kernel size (the default is \<open>5\<close>)
  and at least one hidden channel (\<^verbatim>\<open>num_channels\<close>, by default \<open>64\<close>),
  \<^verbatim>\<open>RegressionFCN.forward(x)\<close> (with at least one layer, or as many channels as the
  input) and \<^verbatim>\<open>CustomAttn.forward(x)\<close> each return a tensor of the shape of \<open>x\<close>; so
  the assertion \<^verbatim>\<open>output.shape == first_y.shape\<close> holds for the models of the notebook
  on the batches of the data set.
\<close>

theorem fcn_and_attention_model_preserve_shape:
  assumes "shape x = [batch, C, L]" and "C = fst inshape" and "0 < L"
    and "odd ksize" and "num_layers = 0 \<longrightarrow> num_channels = C"
    and "0 < C" and "0 < num_channels"
  shows "(\<exists>y. RegressionFCN_forward (RegressionFCN W inshape num_channels ksize num_layers) x = Inr y
            \<and> shape y = shape x)
       \<and> (\<exists>y. CustomAttn_forward (CustomAttn W' wQ wK wV inshape num_channels ksize) x = Inr y
            \<and> shape y = shape x)"
proof -
  have s: "shape x = [batch, fst inshape, L]" using assms(1,2) by simp
  have n: "num_layers = 0 \<longrightarrow> num_channels = fst inshape" using assms(2,5) by simp
  have c: "0 < fst inshape" using assms(2,6) by simp
  show ?thesis
    using RegressionFCN_forward_shape_general[where W = W, OF s assms(3,4) n c assms(7)]
      CustomAttn_forward_shape[where W = W' and wQ = wQ and wK = wK and wV = wV,
        OF s assms(3,4) c assms(7)] s
    by simp
qed

theorem fcn_and_attention_model_preserve_shape_witness:
  "shape (zeros [64, 1, 64]) = [64, 1, 64] \<and> (1::nat) = fst (1::nat, 64::nat) \<and> (0::nat) < 64
   \<and> odd (5::nat) \<and> (0::nat) < 1
   \<and> (\<exists>y. RegressionFCN_forward (RegressionFCN zero_init (1, 64) 64 5 4) (zeros [64, 1, 64]) = Inr y
          \<and> shape y = shape (zeros [64, 1, 64]))
   \<and> (\<exists>y. CustomAttn_forward
             (CustomAttn zero_init (\<lambda>co c k. 0) (\<lambda>co c k. 0) (\<lambda>co c k. 0) (1, 64) 64 5)
             (zeros [64, 1, 64]) = Inr y
          \<and> shape y = shape (zeros [64, 1, 64]))"
proof -
  have h: "shape (zeros [64, 1, 64]) = [64, 1, 64]" "(1::nat) = fst (1::nat, 64::nat)"
    "(0::nat) < 64" "odd (5::nat)" "(4::nat) = 0 \<longrightarrow> (64::nat) = 1" "(0::nat) < 1" "(0::nat) < 64"
    by (simp_all add: shape_zeros)
  from fcn_and_attention_model_preserve_shape[where W = zero_init and W' = zero_init
      and wQ = "\<lambda>co c k. 0" and wK = "\<lambda>co c k. 0" and wV = "\<lambda>co c k. 0", OF h] h(1-4,6)
  show ?thesis by blast
qed

text \<open>
  Claim C5 says that the output of \<^verbatim>\<open>MyAutoencoder.forward\<close> has the shape of the
  input, for inputs of shape \<open>(batch, 40)\<close> as for \<open>(batch, 1, 40)\<close>. For an input of rank
  two it has not: the decoder returns the channel dimension. Nor has it for a model of
  five layers, whose encoder shortens \<open>40\<close> to \<open>3\<close> positions, which the decoder doubles
  four times to \<open>48\<close>; and a model of one layer and sixteen channels raises.
\<close>

theorem MyAutoencoder_2d_input_shape_differs:
  "(\<exists>y. MyAutoencoder_forward (MyAutoencoder zero_init zero_init 3 16) (zeros [1, 40]) = Inr y
      \<and> shape y = [1, 1, 40] \<and> shape y \<noteq> shape (zeros [1, 40]))
   \<and> (\<exists>y. MyAutoencoder_forward (MyAutoencoder zero_init zero_init 5 16) (zeros [1, 1, 40]) = Inr y
      \<and> shape y = [1, 1, 48] \<and> shape y \<noteq> shape (zeros [1, 1, 40]))
   \<and> MyAutoencoder_forward (MyAutoencoder zero_init zero_init 1 16) (zeros [1, 1, 40])
       = Inl RuntimeError"
proof (intro conjI)
  have "shape (zeros [1, 40]) = [1, 40] \<or> shape (zeros [1, 40]) = [1, 1, 40]"
    by (simp add: shape_zeros)
  from MyAutoencoder_forward_shape[where W_enc = zero_init and W_dec = zero_init
      and nchannels = 16, OF this]
  show "\<exists>y. MyAutoencoder_forward (MyAutoencoder zero_init zero_init 3 16) (zeros [1, 40]) = Inr y
      \<and> shape y = [1, 1, 40] \<and> shape y \<noteq> shape (zeros [1, 40])"
    by (auto simp: shape_zeros)
  have s: "shape (zeros [1, 1, 40]) = [1, 1, 40]" by (simp add: shape_zeros)
  from MyAutoencoder_five_layers[where W_enc = zero_init and W_dec = zero_init
      and nchannels = 16, OF s]
  show "\<exists>y. MyAutoencoder_forward (MyAutoencoder zero_init zero_init 5 16) (zeros [1, 1, 40]) = Inr y
      \<and> shape y = [1, 1, 48] \<and> shape y \<noteq> shape (zeros [1, 1, 40])"
    by (auto simp: shape_zeros)
  show "MyAutoencoder_forward (MyAutoencoder zero_init zero_init 1 16) (zeros [1, 1, 40])
       = Inl RuntimeError"
    by (rule MyAutoencoder_one_layer[OF s]) simp
qed

text \<open>
  Claim C5, amended: for a model of two to four layers (the default is three) and at
  least one channel (\<^verbatim>\<open>nchannels\<close>, by default \<open>16\<close>) the output of
  \<^verbatim>\<open>MyAutoencoder.forward\<close> has shape \<open>(batch, 1, 40)\<close>. That is the shape of an
  input of rank three; for an input of shape \<open>(batch, 40)\<close> the output squeezed at
  dimension one has the shape of the input, which is what the notebook asserts
  (\<^verbatim>\<open>Xt_prime.squeeze(1).shape == Xtest.shape\<close>).
\<close>

theorem MyAutoencoder_output_shape:
  assumes "2 \<le> nlayers" and "nlayers \<le> 4" and "0 < nchannels"
  shows "(shape x = [B, 40] \<longrightarrow>
      (\<exists>y z. MyAutoencoder_forward (MyAutoencoder W_enc W_dec nlayers nchannels) x = Inr y
          \<and> shape y = [B, 1, 40] \<and> squeeze y 1 = Inr z \<and> shape z = shape x))
   \<and> (shape x = [B, 1, 40] \<longrightarrow>
      (\<exists>y. MyAutoencoder_forward (MyAutoencoder W_enc W_dec nlayers nchannels) x = Inr y
          \<and> shape y = shape x))"
proof -
  from assms(1,2) have "nlayers = 2 \<or> nlayers = 3 \<or> nlayers = 4" by auto
  then have d: "(2::nat) ^ (nlayers - 1) dvd 40" by auto
  have p: "(0::nat) < 40" by simp
  show ?thesis
  proof (intro conjI impI)
    assume s: "shape x = [B, 40]"
    then have "shape x = [B, 40] \<or> shape x = [B, 1, 40]" by simp
    from MyAutoencoder_forward_shape_general[where W_enc = W_enc and W_dec = W_dec,
        OF this p d assms(1,3)]
    obtain y where y: "MyAutoencoder_forward (MyAutoencoder W_enc W_dec nlayers nchannels) x = Inr y"
      "shape y = [B, 1, 40]" by blast
    have "squeeze y 1 = Inr (y\<lparr>shape := [B, 40]\<rparr>)" using y(2) by (simp add: squeeze_def)
    with y s show "\<exists>y z. MyAutoencoder_forward (MyAutoencoder W_enc W_dec nlayers nchannels) x = Inr y
          \<and> shape y = [B, 1, 40] \<and> squeeze y 1 = Inr z \<and> shape z = shape x" by simp
  next
    assume s: "shape x = [B, 1, 40]"
    then have "shape x = [B, 40] \<or> shape x = [B, 1, 40]" by simp
    from MyAutoencoder_forward_shape_general[where W_enc = W_enc and W_dec = W_dec,
        OF this p d assms(1,3)] s
    show "\<exists>y. MyAutoencoder_forward (MyAutoencoder W_enc W_dec nlayers nchannels) x = Inr y
          \<and> shape y = shape x" by simp
  qed
qed

theorem MyAutoencoder_output_shape_witness:
  "(2::nat) \<le> 3 \<and> (3::nat) \<le> 4 \<and> (0::nat) < 16
   \<and> shape (zeros [8, 40]) = [8, 40]
   \<and> (\<exists>y z. MyAutoencoder_forward (MyAutoencoder zero_init zero_init 3 16) (zeros [8, 40]) = Inr y
          \<and> shape y = [8, 1, 40] \<and> squeeze y 1 = Inr z \<and> shape z = shape (zeros [8, 40]))
   \<and> shape (zeros [8, 1, 40]) = [8, 1, 40]
   \<and> (\<exists>y. MyAutoencoder_forward (MyAutoencoder zero_init zero_init 3 16) (zeros [8, 1, 40]) = Inr y
          \<and> shape y = shape (zeros [8, 1, 40]))"
proof -
  have h: "(2::nat) \<le> 3" "(3::nat) \<le> 4" "(0::nat) < 16" by simp_all
  from MyAutoencoder_output_shape[where x = "zeros [8, 40]" and B = 8 and W_enc = zero_init
        and W_dec = zero_init, OF h]
    MyAutoencoder_output_shape[where x = "zeros [8, 1, 40]" and B = 8 and W_enc = zero_init
        and W_dec = zero_init, OF h]
  show ?thesis by (simp add: shape_zeros)
qed

text \<open>
  Claim C6. \<^verbatim>\<open>MyAutoencoder.forward(x)\<close> is \<^verbatim>\<open>MyDecoder.forward\<close> of
  \<^verbatim>\<open>MyEncoder.forward(x)\<close> for every input, and with the default three layers, and
  any positive number of channels (the default is \<open>16\<close>), the encoder maps an input of
  width \<open>40\<close> to a latent representation of width \<open>10\<close>, strictly smaller than the input
  width.
\<close>

theorem MyAutoencoder_bottleneck:
  "MyAutoencoder_forward m x
     = then_do (MyEncoder_forward (enc m) x) (MyDecoder_forward (dec m))
   \<and> (0 < nchannels \<and> (shape x = [B, 40] \<or> shape x = [B, 1, 40]) \<longrightarrow>
       (\<exists>h. MyEncoder_forward (enc (MyAutoencoder W_enc W_dec 3 nchannels)) x = Inr h
           \<and> shape h = [B, 10] \<and> last (shape h) < last (shape x)))"
proof -
  have "MyAutoencoder_forward m x
           = then_do (MyEncoder_forward (enc m) x) (MyDecoder_forward (dec m))"
    by (simp add: MyAutoencoder_forward_def then_do_def split: sum.splits)
  moreover have "\<exists>h. MyEncoder_forward (enc (MyAutoencoder W_enc W_dec 3 nchannels)) x = Inr h
              \<and> shape h = [B, 10] \<and> last (shape h) < last (shape x)"
    if s: "shape x = [B, 40] \<or> shape x = [B, 1, 40]" and c: "0 < nchannels"
    using MyEncoder_forward_shape[where W = W_enc, OF s c] s
    by (auto simp: MyAutoencoder_def)
  ultimately show ?thesis by blast
qed

theorem MyAutoencoder_bottleneck_witness:
  "(0::nat) < 16
   \<and> (shape (zeros [8, 40]) = [8, 40] \<or> shape (zeros [8, 40]) = [8, 1, 40])
   \<and> MyAutoencoder_forward (MyAutoencoder zero_init zero_init 3 16) (zeros [8, 40])
       = then_do (MyEncoder_forward (enc (MyAutoencoder zero_init zero_init 3 16)) (zeros [8, 40]))
           (MyDecoder_forward (dec (MyAutoencoder zero_init zero_init 3 16)))
   \<and> (\<exists>h. MyEncoder_forward (enc (MyAutoencoder zero_init zero_init 3 16)) (zeros [8, 40]) = Inr h
          \<and> shape h = [8, 10])"
proof -
  have s: "shape (zeros [8, 40]) = [8, 40] \<or> shape (zeros [8, 40]) = [8, 1, 40]"
    by (simp add: shape_zeros)
  have c: "(0::nat) < 16" by simp
  from MyAutoencoder_bottleneck[where m = "MyAutoencoder zero_init zero_init 3 16"
      and x = "zeros [8, 40]" and B = 8 and W_enc = zero_init and W_dec = zero_init
      and nchannels = 16] s c
  show ?thesis by blast
qed



end
